theory Spec2Isabelle
  imports Main "HOL-Library.Word" "HOL-Library.List_Lexorder"
begin

unbundle bit_operations_syntax

section \<open>Python values used by app.py\<close>

text \<open>
  A Python \<open>str\<close> is a sequence of Unicode code points, a \<open>bytes\<close> object a sequence
  of octets. A float is represented by what is observed of one: the text \<open>str()\<close> gives
  for it, its truth value, and the text SQLite stores for it in a column of type VARCHAR
  (\<open>None\<close> for a NaN, which is stored as NULL).
\<close>

type_synonym pystr = "nat list"
type_synonym byte = "8 word"
type_synonym pybytes = "byte list"

definition S :: "string \<Rightarrow> pystr" where
  "S cs = map of_char cs"

datatype pyfloat = Float (float_str: pystr) (float_truth: bool) (float_text: "pystr option")

text \<open>
  The values \<open>sqlite3\<close> hands out and takes in for a column, and the values
  \<open>json.loads\<close> produces. A \<open>dict\<close> is the list of its items in insertion
  order.
\<close>

datatype sqlval =
    SNull
  | SInt int
  | SReal pyfloat
  | SText pystr
  | SBlob pybytes

datatype json =
    JNull
  | JBool bool
  | JInt int
  | JFloat pyfloat
  | JStr pystr
  | JList "json list"
  | JDict "(pystr \<times> json) list"

datatype cause = OperationalError | IntegrityError

text \<open>
  The exceptions that leave the functions modelled: \<open>Exception msg\<close> is
  \<open>raise Exception(msg)\<close>, \<open>CleaningFailed\<close> the exception
  \<open>clean_data_to_analysis_db\<close> raises around a database error, \<open>DatabaseError\<close> a
  database error that a query lets through, \<open>OtherException\<close> an exception of a library
  call that the code does not catch, with its text.
\<close>

datatype error =
    OSError
  | FileNotFoundError
  | UnicodeEncodeError
  | OverflowError
  | DatabaseError cause
  | Exception pystr
  | OtherException pystr
  | CleaningFailed cause
  | HTTPException nat

subsection \<open>Slicing\<close>

definition clamp_index :: "nat \<Rightarrow> int \<Rightarrow> nat" where
  "clamp_index n i = (if i < 0 then nat (int n + i) else min (nat i) n)"

definition py_slice :: "'a list \<Rightarrow> int option \<Rightarrow> int option \<Rightarrow> 'a list" where
  "py_slice xs a b =
     (let n = length xs;
          lo = (case a of None \<Rightarrow> 0 | Some i \<Rightarrow> clamp_index n i);
          hi = (case b of None \<Rightarrow> n | Some j \<Rightarrow> clamp_index n j)
      in take (hi - lo) (drop lo xs))"

subsection \<open>\<open>str.encode('utf-8')\<close>\<close>

definition scalar_value :: "nat \<Rightarrow> bool" where
  "scalar_value c \<longleftrightarrow> c < 0x110000 \<and> \<not> (0xD800 \<le> c \<and> c \<le> 0xDFFF)"

definition encodable :: "pystr \<Rightarrow> bool" where
  "encodable s = list_all scalar_value s"

definition utf8_char :: "nat \<Rightarrow> pybytes" where
  "utf8_char c =
     (if c < 0x80 then [of_nat c]
      else if c < 0x800 then [of_nat (0xC0 + c div 64), of_nat (0x80 + c mod 64)]
      else if c < 0x10000 then
        [of_nat (0xE0 + c div 4096), of_nat (0x80 + c div 64 mod 64), of_nat (0x80 + c mod 64)]
      else
        [of_nat (0xF0 + c div 262144), of_nat (0x80 + c div 4096 mod 64),
         of_nat (0x80 + c div 64 mod 64), of_nat (0x80 + c mod 64)])"

definition utf8 :: "pystr \<Rightarrow> pybytes" where
  "utf8 s = concat (map utf8_char s)"

definition encode_utf8 :: "pystr \<Rightarrow> error + pybytes" where
  "encode_utf8 s = (if encodable s then Inr (utf8 s) else Inl UnicodeEncodeError)"

subsection \<open>\<open>repr\<close> of a bytes object and \<open>str\<close> of a value\<close>

definition hexdigit :: "nat \<Rightarrow> nat" where
  "hexdigit d = (if d < 10 then 48 + d else 87 + d)"

definition hex_byte :: "byte \<Rightarrow> pystr" where
  "hex_byte b = [hexdigit (unat b div 16), hexdigit (unat b mod 16)]"

definition bytes_quote :: "pybytes \<Rightarrow> nat" where
  "bytes_quote bs = (if 39 \<in> set bs \<and> 34 \<notin> set bs then 34 else 39)"

definition escape_byte :: "nat \<Rightarrow> byte \<Rightarrow> pystr" where
  "escape_byte q b =
     (let c = unat b in
      if c = q \<or> c = 92 then [92, c]
      else if c = 9 then [92, 116]
      else if c = 10 then [92, 110]
      else if c = 13 then [92, 114]
      else if c < 32 \<or> 127 \<le> c then [92, 120] @ hex_byte b
      else [c])"

definition repr_body :: "pybytes \<Rightarrow> pystr" where
  "repr_body bs = concat (map (escape_byte (bytes_quote bs)) bs)"

definition bytes_repr :: "pybytes \<Rightarrow> pystr" where
  "bytes_repr bs = [98, bytes_quote bs] @ repr_body bs @ [bytes_quote bs]"

fun digits :: "nat \<Rightarrow> pystr" where
  "digits n = (if n < 10 then [48 + n] else digits (n div 10) @ [48 + n mod 10])"

declare digits.simps [simp del]

definition int_str :: "int \<Rightarrow> pystr" where
  "int_str i = (if i < 0 then 45 # digits (nat (- i)) else digits (nat i))"

fun py_str :: "sqlval \<Rightarrow> pystr" where
  "py_str SNull = S ''None''"
| "py_str (SInt i) = int_str i"
| "py_str (SReal f) = float_str f"
| "py_str (SText s) = s"
| "py_str (SBlob bs) = bytes_repr bs"

fun truthy :: "sqlval \<Rightarrow> bool" where
  "truthy SNull = False"
| "truthy (SInt i) = (i \<noteq> 0)"
| "truthy (SReal f) = float_truth f"
| "truthy (SText s) = (s \<noteq> [])"
| "truthy (SBlob bs) = (bs \<noteq> [])"

text \<open>
  What SQLite stores when a value is written to a column of type VARCHAR: a number becomes
  its text, a NaN becomes NULL, anything else stays.
\<close>

fun to_text :: "sqlval \<Rightarrow> sqlval" where
  "to_text SNull = SNull"
| "to_text (SInt i) = SText (int_str i)"
| "to_text (SReal f) = (case float_text f of None \<Rightarrow> SNull | Some t \<Rightarrow> SText t)"
| "to_text (SText s) = SText s"
| "to_text (SBlob bs) = SBlob bs"

section \<open>\<open>hashlib.md5\<close> (RFC 1321)\<close>

definition md5_K :: "32 word list" where
  "md5_K =
    [0xD76AA478, 0xE8C7B756, 0x242070DB, 0xC1BDCEEE,
     0xF57C0FAF, 0x4787C62A, 0xA8304613, 0xFD469501,
     0x698098D8, 0x8B44F7AF, 0xFFFF5BB1, 0x895CD7BE,
     0x6B901122, 0xFD987193, 0xA679438E, 0x49B40821,
     0xF61E2562, 0xC040B340, 0x265E5A51, 0xE9B6C7AA,
     0xD62F105D, 0x02441453, 0xD8A1E681, 0xE7D3FBC8,
     0x21E1CDE6, 0xC33707D6, 0xF4D50D87, 0x455A14ED,
     0xA9E3E905, 0xFCEFA3F8, 0x676F02D9, 0x8D2A4C8A,
     0xFFFA3942, 0x8771F681, 0x6D9D6122, 0xFDE5380C,
     0xA4BEEA44, 0x4BDECFA9, 0xF6BB4B60, 0xBEBFBC70,
     0x289B7EC6, 0xEAA127FA, 0xD4EF3085, 0x04881D05,
     0xD9D4D039, 0xE6DB99E5, 0x1FA27CF8, 0xC4AC5665,
     0xF4292244, 0x432AFF97, 0xAB9423A7, 0xFC93A039,
     0x655B59C3, 0x8F0CCC92, 0xFFEFF47D, 0x85845DD1,
     0x6FA87E4F, 0xFE2CE6E0, 0xA3014314, 0x4E0811A1,
     0xF7537E82, 0xBD3AF235, 0x2AD7D2BB, 0xEB86D391]"

definition md5_s :: "nat list" where
  "md5_s =
    [7, 12, 17, 22, 7, 12, 17, 22, 7, 12, 17, 22, 7, 12, 17, 22,
     5, 9, 14, 20, 5, 9, 14, 20, 5, 9, 14, 20, 5, 9, 14, 20,
     4, 11, 16, 23, 4, 11, 16, 23, 4, 11, 16, 23, 4, 11, 16, 23,
     6, 10, 15, 21, 6, 10, 15, 21, 6, 10, 15, 21, 6, 10, 15, 21]"

definition rotl32 :: "nat \<Rightarrow> 32 word \<Rightarrow> 32 word" where
  "rotl32 n x = push_bit n x OR drop_bit (32 - n) x"

definition le_bytes :: "nat \<Rightarrow> 'a::len word \<Rightarrow> pybytes" where
  "le_bytes k w = map (\<lambda>i. ucast (drop_bit (8 * i) w)) [0..<k]"

definition le_word :: "pybytes \<Rightarrow> 32 word" where
  "le_word bs = foldr (\<lambda>b w. ucast b OR push_bit 8 w) bs 0"

definition md5_pad :: "pybytes \<Rightarrow> pybytes" where
  "md5_pad m =
     m @ [0x80] @ replicate ((119 - length m mod 64) mod 64) 0
       @ le_bytes 8 (of_nat (8 * length m) :: 64 word)"

type_synonym md5_state = "32 word \<times> 32 word \<times> 32 word \<times> 32 word"

definition md5_step :: "32 word list \<Rightarrow> md5_state \<Rightarrow> nat \<Rightarrow> md5_state" where
  "md5_step M st i =
     (case st of (a, b, c, d) \<Rightarrow>
        let (f, g) =
              (if i < 16 then ((b AND c) OR (NOT b AND d), i)
               else if i < 32 then ((d AND b) OR (NOT d AND c), (5 * i + 1) mod 16)
               else if i < 48 then (b XOR c XOR d, (3 * i + 5) mod 16)
               else (c XOR (b OR NOT d), (7 * i) mod 16));
            f' = f + a + md5_K ! i + M ! g
        in (d, b + rotl32 (md5_s ! i) f', b, c))"

definition md5_block :: "md5_state \<Rightarrow> pybytes \<Rightarrow> md5_state" where
  "md5_block st blk =
     (let M = map (\<lambda>j. le_word (take 4 (drop (4 * j) blk))) [0..<16] in
      case st of (a0, b0, c0, d0) \<Rightarrow>
      case foldl (md5_step M) st [0..<64] of (a, b, c, d) \<Rightarrow>
        (a0 + a, b0 + b, c0 + c, d0 + d))"

fun md5_blocks :: "nat \<Rightarrow> md5_state \<Rightarrow> pybytes \<Rightarrow> md5_state" where
  "md5_blocks 0 st bs = st"
| "md5_blocks (Suc n) st bs = md5_blocks n (md5_block st (take 64 bs)) (drop 64 bs)"

definition md5_digest :: "pybytes \<Rightarrow> pybytes" where
  "md5_digest m =
     (let p = md5_pad m in
      case md5_blocks (length p div 64) (0x67452301, 0xEFCDAB89, 0x98BADCFE, 0x10325476) p
      of (a, b, c, d) \<Rightarrow>
        concat (map (le_bytes 4) [a, b, c, d]))"

definition hexdigest :: "pybytes \<Rightarrow> pystr" where
  "hexdigest bs = concat (map hex_byte bs)"

section \<open>app.py: key derivation and header stripping\<close>

definition md5 :: "pystr \<Rightarrow> error + pystr" where
  "md5 input_string =
     (case encode_utf8 input_string of
        Inl e \<Rightarrow> Inl e
      | Inr data_to_hash \<Rightarrow> Inr (hexdigest (md5_digest data_to_hash)))"

text \<open>
  A file is \<open>None\<close> when it cannot be opened for reading, otherwise its content.
\<close>

definition get_key :: "pystr \<Rightarrow> pybytes option \<Rightarrow> error + pystr" where
  "get_key nt_uid db_file =
     (case db_file of
        None \<Rightarrow> Inl OSError
      | Some content \<Rightarrow>
          let header_chunk = take 54 content;
              seed_bytes = py_slice header_chunk (Some (- 8)) None;
              seed_str = py_slice (py_str (SBlob seed_bytes)) (Some 2) (Some (- 1))
          in (case md5 nt_uid of
                Inl e \<Rightarrow> Inl e
              | Inr uid_hash \<Rightarrow> md5 (uid_hash @ seed_str)))"

text \<open>
  \<open>remove_header\<close> returns the content written to the destination file, which is taken
  to be writable.
\<close>

definition remove_header :: "pybytes option \<Rightarrow> error + pybytes" where
  "remove_header source =
     (case source of
        None \<Rightarrow> Inl OSError
      | Some content \<Rightarrow> Inr (py_slice content (Some 1024) None))"

section \<open>app.py: the analysis database\<close>

text \<open>
  The two mapped classes. A table is the list of its rows in storage order; the primary
  key of \<open>groups\<close> is \<open>g_group_id\<close> (the column \<open>group_id\<close>), that of \<open>members\<close> the pair
  \<open>(group_id, user_id)\<close>. The same records stand for the objects the program makes and
  for the rows of the tables; \<open>stored_Group\<close> and \<open>stored_Member\<close> give the row that
  writing an object leaves, all columns being of type VARCHAR.
\<close>

record Group =
  g_group_id :: pystr
  group_name :: sqlval

record Member =
  group_id :: pystr
  user_id :: pystr
  user_name :: sqlval
  user_group_name :: sqlval

record db =
  groups :: "Group list"
  members :: "Member list"

definition stored_Group :: "Group \<Rightarrow> Group" where
  "stored_Group g = g\<lparr>group_name := to_text (group_name g)\<rparr>"

definition stored_Member :: "Member \<Rightarrow> Member" where
  "stored_Member m =
     m\<lparr>user_name := to_text (user_name m), user_group_name := to_text (user_group_name m)\<rparr>"

definition member_key :: "Member \<Rightarrow> pystr \<times> pystr" where
  "member_key m = (group_id m, user_id m)"

definition wf_db :: "db \<Rightarrow> bool" where
  "wf_db d \<longleftrightarrow> distinct (map g_group_id (groups d)) \<and> distinct (map member_key (members d))"

text \<open>
  The directory \<open>data/\<close>: for each account identifier the analysis database of its folder,
  if there is one.
\<close>

type_synonym store = "pystr \<Rightarrow> db option"

definition init_user_db :: "store \<Rightarrow> pystr \<Rightarrow> db" where
  "init_user_db st qq_id =
     (case st qq_id of None \<Rightarrow> \<lparr>groups = [], members = []\<rparr> | Some d \<Rightarrow> d)"

definition get_session :: "store \<Rightarrow> pystr \<Rightarrow> error + db" where
  "get_session st qq_id =
     (case st qq_id of None \<Rightarrow> Inl (HTTPException 404) | Some d \<Rightarrow> Inr d)"

subsection \<open>Session operations\<close>

text \<open>
  \<open>session.merge\<close> writes the row of the object's primary key, replacing one that is there;
  \<open>session.bulk_save_objects\<close> inserts the objects one after the other, and the insertion
  of a primary key that is there already raises \<open>IntegrityError\<close>.
\<close>

fun merge_Group :: "Group \<Rightarrow> Group list \<Rightarrow> Group list" where
  "merge_Group g [] = [stored_Group g]"
| "merge_Group g (r # rs) =
     (if g_group_id r = g_group_id g then stored_Group g # rs else r # merge_Group g rs)"

fun merge_Member :: "Member \<Rightarrow> Member list \<Rightarrow> Member list" where
  "merge_Member m [] = [stored_Member m]"
| "merge_Member m (r # rs) =
     (if member_key r = member_key m then stored_Member m # rs else r # merge_Member m rs)"

fun bulk_save_objects :: "Member list \<Rightarrow> Member list \<Rightarrow> cause + Member list" where
  "bulk_save_objects [] tbl = Inr tbl"
| "bulk_save_objects (m # ms) tbl =
     (if member_key m \<in> set (map member_key tbl) then Inl IntegrityError
      else bulk_save_objects ms (tbl @ [stored_Member m]))"

subsection \<open>\<open>Pipeline.clean_data_to_analysis_db\<close>\<close>

text \<open>
  The decrypted database as the two \<open>SELECT *\<close> statements see it: the rows of each
  table, or \<open>None\<close> where the statement fails (no such table).
\<close>

record raw_source =
  group_list :: "sqlval list list option"
  group_member3 :: "sqlval list list option"

definition BATCH_SIZE :: nat where
  "BATCH_SIZE = 5000"

fun load_groups :: "sqlval list list \<Rightarrow> Group list \<Rightarrow> Group list" where
  "load_groups [] tbl = tbl"
| "load_groups (row # rows) tbl =
     load_groups rows
       (if length row > 5
        then merge_Group \<lparr>g_group_id = py_str (row ! 0), group_name = SText (py_str (row ! 5))\<rparr> tbl
        else tbl)"

fun load_members ::
  "pystr \<Rightarrow> sqlval list list \<Rightarrow> Member list \<Rightarrow> Member list \<Rightarrow> cause + Member list \<times> Member list"
where
  "load_members target_qq_id [] batch tbl = Inr (batch, tbl)"
| "load_members target_qq_id (row # rows) batch tbl =
     (if length row \<le> 5 \<or> row ! 2 = SNull \<or> row ! 5 = SNull
      then load_members target_qq_id rows batch tbl
      else
        let g_nick = row ! 0;
            u_name = row ! 1;
            g_id = py_str (row ! 2);
            u_id = py_str (row ! 5)
        in if u_id = target_qq_id then load_members target_qq_id rows batch tbl
           else
             let final_nick = (if truthy g_nick then g_nick else u_name);
                 batch' = batch @ [\<lparr>group_id = g_id, user_id = u_id, user_name = u_name,
                                     user_group_name = final_nick\<rparr>]
             in if length batch' \<ge> BATCH_SIZE
                then (case bulk_save_objects batch' tbl of
                        Inl e \<Rightarrow> Inl e
                      | Inr tbl' \<Rightarrow> load_members target_qq_id rows [] tbl')
                else load_members target_qq_id rows batch' tbl)"

text \<open>
  The body of the \<open>try\<close> block up to \<open>session.commit()\<close>, on the session's view of the
  database; \<open>Inl\<close> is the exception that leaves the block.
\<close>

definition etl_transaction :: "raw_source \<Rightarrow> pystr \<Rightarrow> db \<Rightarrow> cause + db" where
  "etl_transaction src target_qq_id d0 =
     (let d1 = d0\<lparr>members := []\<rparr>;
          d2 = d1\<lparr>groups := []\<rparr>
      in case group_list src of
           None \<Rightarrow> Inl OperationalError
         | Some group_rows \<Rightarrow>
             let d3 = d2\<lparr>groups := load_groups group_rows (groups d2)\<rparr>
             in case group_member3 src of
                  None \<Rightarrow> Inl OperationalError
                | Some member_rows \<Rightarrow>
                    (case load_members target_qq_id member_rows [] (members d3) of
                       Inl e \<Rightarrow> Inl e
                     | Inr (batch, tbl) \<Rightarrow>
                         (case (if batch \<noteq> [] then bulk_save_objects batch tbl else Inr tbl) of
                            Inl e \<Rightarrow> Inl e
                          | Inr tbl' \<Rightarrow> Inr (d3\<lparr>members := tbl'\<rparr>))))"

text \<open>
  The whole call: the result, and the store it leaves. A failure rolls the session back, so
  the store keeps the database \<open>init_user_db\<close> found or created.
\<close>

definition clean_data_to_analysis_db ::
  "raw_source \<Rightarrow> pystr \<Rightarrow> store \<Rightarrow> (error + unit) \<times> store"
where
  "clean_data_to_analysis_db source_decrypted_db target_qq_id st =
     (let d0 = init_user_db st target_qq_id;
          st1 = st(target_qq_id \<mapsto> d0)
      in case etl_transaction source_decrypted_db target_qq_id d0 of
           Inl e \<Rightarrow> (Inl (CleaningFailed e), st1)
         | Inr d \<Rightarrow> (Inr (), st1(target_qq_id \<mapsto> d)))"

subsection \<open>\<open>process_json\<close>\<close>

definition dict_get :: "(pystr \<times> json) list \<Rightarrow> pystr \<Rightarrow> json \<Rightarrow> json" where
  "dict_get d k dflt = (case map_of d k of None \<Rightarrow> dflt | Some v \<Rightarrow> v)"

text \<open>
  Binding a Python value to a statement parameter: \<open>None\<close> where \<open>sqlite3\<close> refuses the
  value (a list, a dict, an integer outside 64 bits, a string that has no UTF-8 encoding).
\<close>

fun bind :: "json \<Rightarrow> sqlval option" where
  "bind JNull = Some SNull"
| "bind (JBool b) = Some (SInt (if b then 1 else 0))"
| "bind (JInt i) = (if - 9223372036854775808 \<le> i \<and> i \<le> 9223372036854775807 then Some (SInt i) else None)"
| "bind (JFloat f) = Some (SReal f)"
| "bind (JStr s) = (if encodable s then Some (SText s) else None)"
| "bind (JList xs) = None"
| "bind (JDict kvs) = None"

text \<open>
  The two loops of \<open>process_json\<close> on the session's view of the database; \<open>None\<close> when an
  exception leaves them or the flush of what they wrote.
\<close>

fun json_members ::
  "pystr \<Rightarrow> pystr \<Rightarrow> (pystr \<times> json) list \<Rightarrow> Member list \<Rightarrow> Member list option"
where
  "json_members qq_id gid [] tbl = Some tbl"
| "json_members qq_id gid ((uid, u_info) # rest) tbl =
     (if uid = qq_id then json_members qq_id gid rest tbl
      else
        (case u_info of
           JDict ui \<Rightarrow>
             (case (bind (dict_get ui (S ''user_name'') (JStr [])),
                    bind (dict_get ui (S ''user_group_name'') (JStr []))) of
                (Some n, Some gn) \<Rightarrow>
                  if encodable uid
                  then json_members qq_id gid rest
                         (merge_Member \<lparr>group_id = gid, user_id = uid, user_name = n,
                                         user_group_name = gn\<rparr> tbl)
                  else None
              | _ \<Rightarrow> None)
         | _ \<Rightarrow> None))"

fun json_groups :: "pystr \<Rightarrow> (pystr \<times> json) list \<Rightarrow> db \<Rightarrow> db option" where
  "json_groups qq_id [] d = Some d"
| "json_groups qq_id ((gid, g_info) # rest) d =
     (case g_info of
        JDict gi \<Rightarrow>
          (case bind (dict_get gi (S ''group_name'') (JStr (S ''Unknown''))) of
             Some g_name \<Rightarrow>
               if encodable gid
               then
                 (case dict_get gi (S ''members'') (JDict []) of
                    JDict ms \<Rightarrow>
                      (case json_members qq_id gid ms (members d) of
                         Some tbl \<Rightarrow>
                           json_groups qq_id rest
                             \<lparr>groups = merge_Group \<lparr>g_group_id = gid, group_name = g_name\<rparr> (groups d),
                              members = tbl\<rparr>
                       | None \<Rightarrow> None)
                  | _ \<Rightarrow> None)
               else None
           | None \<Rightarrow> None)
      | _ \<Rightarrow> None)"

definition json_transaction :: "json \<Rightarrow> pystr \<Rightarrow> db \<Rightarrow> db option" where
  "json_transaction data qq_id d0 =
     (let d1 = d0\<lparr>members := []\<rparr>;
          d2 = d1\<lparr>groups := []\<rparr>
      in case data of JDict items \<Rightarrow> json_groups qq_id items d2 | _ \<Rightarrow> None)"

text \<open>
  The upload is \<open>None\<close> when \<open>json.loads\<close> rejects it, which happens before the account's
  database is touched. Every exception is turned into \<open>HTTPException(500)\<close>; nothing has
  been committed then.
\<close>

definition process_json :: "json option \<Rightarrow> pystr \<Rightarrow> store \<Rightarrow> (error + unit) \<times> store" where
  "process_json file qq_id st =
     (case file of
        None \<Rightarrow> (Inl (HTTPException 500), st)
      | Some data \<Rightarrow>
          let d0 = init_user_db st qq_id;
              st1 = st(qq_id \<mapsto> d0)
          in case json_transaction data qq_id d0 of
               None \<Rightarrow> (Inl (HTTPException 500), st1)
             | Some d \<Rightarrow> (Inr (), st1(qq_id \<mapsto> d)))"

subsection \<open>Queries\<close>

text \<open>
  What the queries leave to the database engine: the largest number of parameters a
  statement may have, the order in which \<open>GROUP BY\<close> gives out the groups (as a
  rearrangement of the group keys), the order \<open>ORDER BY count DESC\<close> leaves among rows of
  equal count, the row whose value a bare column of a group takes, and \<open>max\<close> of a column.
  \<open>sql_engine\<close> is what SQL promises of them.
\<close>

record engine =
  max_variables :: nat
  group_order :: "pystr list \<Rightarrow> pystr list"
  order_by_count :: "(pystr \<times> sqlval \<times> nat) list \<Rightarrow> (pystr \<times> sqlval \<times> nat) list"
  bare_column :: "Member list \<Rightarrow> sqlval"
  max_column :: "sqlval list \<Rightarrow> sqlval"

definition sql_engine :: "engine \<Rightarrow> bool" where
  "sql_engine e \<longleftrightarrow>
     0 < max_variables e
     \<and> (\<forall>ks. set (group_order e ks) = set ks \<and> (distinct ks \<longrightarrow> distinct (group_order e ks)))
     \<and> (\<forall>rs. set (order_by_count e rs) = set rs
            \<and> length (order_by_count e rs) = length rs
            \<and> sorted_wrt (\<ge>) (map (\<lambda>(u, n, c). c) (order_by_count e rs)))"

definition group_by_user :: "engine \<Rightarrow> Member list \<Rightarrow> (pystr \<times> Member list) list" where
  "group_by_user e rows =
     map (\<lambda>u. (u, filter (\<lambda>m. user_id m = u) rows)) (group_order e (remdups (map user_id rows)))"

text \<open>
  \<open>min_groups\<close> is the one parameter of the statement of \<open>get_frequent_users\<close>; binding an
  integer outside 64 bits raises \<open>OverflowError\<close>.
\<close>

definition get_frequent_users ::
  "engine \<Rightarrow> store \<Rightarrow> pystr \<Rightarrow> int \<Rightarrow> error + (pystr \<times> sqlval \<times> nat) list"
where
  "get_frequent_users e st qq_id min_groups =
     (case get_session st qq_id of
        Inl err \<Rightarrow> Inl err
      | Inr d \<Rightarrow>
          if max_variables e < 1 then Inl (DatabaseError OperationalError)
          else if min_groups < - 9223372036854775808 \<or> 9223372036854775807 < min_groups
          then Inl OverflowError
          else
            Inr (order_by_count e
                   (filter (\<lambda>(u, n, c). int c \<ge> min_groups)
                      (map (\<lambda>(u, rows). (u, bare_column e rows, length rows))
                         (group_by_user e (members d))))))"

text \<open>
  The statement of \<open>analyze_intersection\<close> has one parameter for each listed id and one for
  \<open>target_len\<close>. Preparing a statement with more parameters than the engine allows raises
  \<open>OperationalError\<close>; binding a string that has no UTF-8 encoding raises
  \<open>UnicodeEncodeError\<close>.
\<close>

definition analyze_intersection ::
  "engine \<Rightarrow> store \<Rightarrow> pystr \<Rightarrow> pystr list \<Rightarrow> error + (pystr \<times> sqlval) list"
where
  "analyze_intersection e st qq_id group_ids =
     (if group_ids = [] then Inr []
      else
        (case get_session st qq_id of
           Inl err \<Rightarrow> Inl err
         | Inr d \<Rightarrow>
             let target_len = length group_ids in
             if max_variables e < length group_ids + 1 then Inl (DatabaseError OperationalError)
             else if \<not> list_all encodable group_ids then Inl UnicodeEncodeError
             else
               Inr (map (\<lambda>(u, rows). (u, max_column e (map user_name rows)))
                      (filter (\<lambda>(u, rows). length (remdups (map group_id rows)) = target_len)
                         (group_by_user e
                            (filter (\<lambda>m. group_id m \<in> set group_ids) (members d)))))))"

text \<open>
  The member rows as the specification words them: a row of the member table is kept when it
  has more than five columns, columns 2 and 5 are not null and column 5 is not the account;
  the kept row gives group id, user id, user name and the nickname, which is column 0 if
  non-empty and the user name otherwise.
\<close>

definition kept :: "pystr \<Rightarrow> sqlval list \<Rightarrow> bool" where
  "kept accountId row \<longleftrightarrow>
     length row > 5 \<and> row ! 2 \<noteq> SNull \<and> row ! 5 \<noteq> SNull \<and> py_str (row ! 5) \<noteq> accountId"

definition member_of_row :: "sqlval list \<Rightarrow> Member" where
  "member_of_row row =
     \<lparr>group_id = py_str (row ! 2), user_id = py_str (row ! 5), user_name = row ! 1,
      user_group_name = (if truthy (row ! 0) then row ! 0 else row ! 1)\<rparr>"

text \<open>
  The key as the specification words it: the hex MD5 of the hex MD5 of the installation
  identifier followed by the seed string, the seed string being the body of the escaped
  literal of the seed bytes.
\<close>

definition spec_key :: "pystr \<Rightarrow> pybytes \<Rightarrow> pystr" where
  "spec_key installationId seed =
     hexdigest (md5_digest (utf8 (hexdigest (md5_digest (utf8 installationId)) @ repr_body seed)))"

definition lower_hex :: "pystr \<Rightarrow> bool" where
  "lower_hex k = list_all (\<lambda>c. (48 \<le> c \<and> c \<le> 57) \<or> (97 \<le> c \<and> c \<le> 102)) k"

definition ascii :: "pystr \<Rightarrow> bool" where
  "ascii s = list_all (\<lambda>c. c < 128) s"

subsection \<open>Example sources\<close>

definition ex_src :: raw_source where
  "ex_src =
     \<lparr>group_list = Some [[SInt 1, SNull, SNull, SNull, SNull, SText (S ''Alpha'')],
                         [SInt 2, SNull, SNull]],
      group_member3 =
        Some [[SText (S ''me''), SText (S ''Me''), SInt 1, SNull, SNull, SInt 1000],
              [SText [], SText (S ''Bob''), SInt 1, SNull, SNull, SInt 2000],
              [SNull, SText (S ''Eve''), SNull, SNull, SNull, SInt 3000],
              [SText (S ''C''), SText (S ''Carol''), SInt 1, SNull, SNull, SText (S ''u3'')]]\<rparr>"

definition ex_db :: db where
  "ex_db =
     \<lparr>groups = [\<lparr>g_group_id = S ''1'', group_name = SText (S ''Alpha'')\<rparr>],
      members =
        [\<lparr>group_id = S ''1'', user_id = S ''2000'', user_name = SText (S ''Bob''),
          user_group_name = SText (S ''Bob'')\<rparr>,
         \<lparr>group_id = S ''1'', user_id = S ''u3'', user_name = SText (S ''Carol''),
          user_group_name = SText (S ''C'')\<rparr>]\<rparr>"

definition ex_json :: json where
  "ex_json =
     JDict [(S ''G9'', JDict [(S ''group_name'', JStr (S ''X'')),
                              (S ''members'',
                               JDict [(S ''1000'', JDict [(S ''user_name'', JStr (S ''Me''))]),
                                      (S ''U1'', JDict [(S ''user_name'', JStr (S ''Bob''))])])])]"

definition ex_json_db :: db where
  "ex_json_db =
     \<lparr>groups = [\<lparr>g_group_id = S ''G9'', group_name = SText (S ''X'')\<rparr>],
      members =
        [\<lparr>group_id = S ''G9'', user_id = S ''U1'', user_name = SText (S ''Bob''),
          user_group_name = SText []\<rparr>]\<rparr>"

subsection \<open>Membership as the specification words it, and an example database\<close>

definition is_member :: "db \<Rightarrow> pystr \<Rightarrow> pystr \<Rightarrow> bool" where
  "is_member d u g \<longleftrightarrow> (\<exists>m\<in>set (members d). user_id m = u \<and> group_id m = g)"

definition distinct_group_count :: "db \<Rightarrow> pystr \<Rightarrow> nat" where
  "distinct_group_count d u =
     length (remdups (map group_id (filter (\<lambda>m. user_id m = u) (members d))))"

definition ex_scenario :: db where
  "ex_scenario =
     \<lparr>groups = [\<lparr>g_group_id = S ''G1'', group_name = SText (S ''Alpha'')\<rparr>,
                 \<lparr>g_group_id = S ''G2'', group_name = SText (S ''Beta'')\<rparr>],
      members =
        [\<lparr>group_id = S ''G1'', user_id = S ''A'', user_name = SText (S ''a''),
          user_group_name = SText (S ''a1'')\<rparr>,
         \<lparr>group_id = S ''G1'', user_id = S ''B'', user_name = SText (S ''b''),
          user_group_name = SText (S ''b1'')\<rparr>,
         \<lparr>group_id = S ''G1'', user_id = S ''C'', user_name = SText (S ''c''),
          user_group_name = SText (S ''c1'')\<rparr>,
         \<lparr>group_id = S ''G2'', user_id = S ''B'', user_name = SText (S ''b''),
          user_group_name = SText (S ''b2'')\<rparr>,
         \<lparr>group_id = S ''G2'', user_id = S ''C'', user_name = SText (S ''c''),
          user_group_name = SText (S ''c2'')\<rparr>,
         \<lparr>group_id = S ''G2'', user_id = S ''D'', user_name = SText (S ''d''),
          user_group_name = SText (S ''d2'')\<rparr>]\<rparr>"

text \<open>
  An engine that orders as SQLite 3.46 is seen to order the examples: groups by ascending
  key, rows of equal count in the reverse of that; the bare column from the first row of
  the group, and the greatest text of a column.
\<close>

definition text_max :: "sqlval list \<Rightarrow> sqlval" where
  "text_max vs =
     (case concat (map (\<lambda>v. case v of SText s \<Rightarrow> [s] | _ \<Rightarrow> []) vs) of
        [] \<Rightarrow> SNull
      | s # ss \<Rightarrow> SText (fold max ss s))"

definition ex_engine :: engine where
  "ex_engine =
     \<lparr>max_variables = 32766,
      group_order = sort,
      order_by_count = (\<lambda>rs. rev (sort_key (\<lambda>(u, n, c). c) rs)),
      bare_column = (\<lambda>rows. case rows of [] \<Rightarrow> SNull | m # _ \<Rightarrow> user_name m),
      max_column = text_max\<rparr>"

text \<open>
  The conditions under which the parameters of the two statements are accepted.
\<close>

definition bindable :: "engine \<Rightarrow> pystr list \<Rightarrow> bool" where
  "bindable e gs \<longleftrightarrow> length gs < max_variables e \<and> list_all encodable gs"

definition in_int64 :: "int \<Rightarrow> bool" where
  "in_int64 i \<longleftrightarrow> - 9223372036854775808 \<le> i \<and> i \<le> 9223372036854775807"

section \<open>app.py: decryption\<close>

text \<open>
  What \<open>decrypt_db\<close> meets outside the program: the platform, whether the output file is
  there and cannot be removed, the \<open>pysqlcipher3\<close> module if it was imported, and what
  running a command does. For the module, \<open>create_output\<close> is the text of the exception
  raised by opening and closing the output database before the \<open>try\<close> block, and
  \<open>export_plaintext key\<close> the text of the exception raised inside it, if any.
\<close>

datatype run_result =
    Completed
  | NotFound
  | CalledProcessError (stderr: pystr) (exc_str: pystr)
  | Raised pystr

record library =
  create_output :: "pystr option"
  export_plaintext :: "pystr \<Rightarrow> pystr option"

record environment =
  win32 :: bool
  output_locked :: bool
  sqlcipher :: "library option"
  probe :: "pystr \<Rightarrow> run_result"
  run_script :: "pystr \<Rightarrow> pystr \<Rightarrow> run_result"

text \<open>The calls made to the two backends, in order.\<close>

datatype event = LibraryExport | Probed pystr | Invoked pystr

definition candidates :: "environment \<Rightarrow> pystr list" where
  "candidates env =
     (let candidates = [S ''sqlcipher'', S ''sqlcipher-x64'', S ''sqlcipher-x86'']
      in if win32 env then map (\<lambda>c. c @ S ''.exe'') candidates else candidates)"

fun find_binary :: "(pystr \<Rightarrow> run_result) \<Rightarrow> pystr list \<Rightarrow> event list \<times> (error + pystr option)" where
  "find_binary run [] = ([], Inr None)"
| "find_binary run (cmd # rest) =
     (case run cmd of
        Completed \<Rightarrow> ([Probed cmd], Inr (Some cmd))
      | NotFound \<Rightarrow> (case find_binary run rest of (evs, r) \<Rightarrow> (Probed cmd # evs, r))
      | CalledProcessError e t \<Rightarrow> (case find_binary run rest of (evs, r) \<Rightarrow> (Probed cmd # evs, r))
      | Raised msg \<Rightarrow> ([Probed cmd], Inl (OtherException msg)))"

definition find_sqlcipher_binary :: "environment \<Rightarrow> event list \<times> (error + pystr option)" where
  "find_sqlcipher_binary env = find_binary (probe env) (candidates env)"

definition error_detail :: pystr where
  "error_detail =
     [26080, 27861, 35299, 23494, 25968, 25454, 24211, 12290, 21518, 31471, 26410, 26816, 27979, 21040] @
       S '' pysqlcipher3 '' @ [24211, 65292, 20063, 26410, 22312] @ S '' PATH '' @
       [20013, 25214, 21040] @ S '' sqlcipher/sqlcipher-x64/sqlcipher-x86 '' @
       [21487, 25191, 34892, 25991, 20214, 12290, 10, 35831, 21442, 29031, 39033, 30446] @
       S '' GitHub '' @
       [39029, 38754, 37197, 32622, 29615, 22659, 65292, 25110, 32773, 35775, 38382] @
       S '' https://docs.aaqwq.top/decrypt/decode_db.html '' @ [25163, 21160, 33719, 21462] @
       S '' group_info.decrypted.db '' @ [21518, 20351, 29992, 12300, 38454, 27573] @ S ''3'' @
       [12301, 23548, 20837, 12290]"

definition cli_error :: pystr where
  "cli_error =
     [21629, 20196, 34892] @ S '' sqlcipher '' @ [25191, 34892, 20986, 38169] @ S '': ''"

text \<open>
  The first strategy: \<open>Some\<close> of the outcome when the function ends there, \<open>None\<close> when
  control reaches the second strategy.
\<close>

definition library_strategy :: "environment \<Rightarrow> pystr \<Rightarrow> event list \<times> (error + unit) option" where
  "library_strategy env key =
     (case sqlcipher env of
        None \<Rightarrow> ([], None)
      | Some lib \<Rightarrow>
          if output_locked env then ([], Some (Inl OSError))
          else
            (case create_output lib of
               Some msg \<Rightarrow> ([], Some (Inl (OtherException msg)))
             | None \<Rightarrow>
                 (case export_plaintext lib key of
                    None \<Rightarrow> ([LibraryExport], Some (Inr ()))
                  | Some msg \<Rightarrow> ([LibraryExport], None))))"

definition tool_strategy :: "environment \<Rightarrow> pystr \<Rightarrow> event list \<times> (error + unit)" where
  "tool_strategy env key =
     (case find_sqlcipher_binary env of
        (evs, Inl e) \<Rightarrow> (evs, Inl e)
      | (evs, Inr cmd_tool) \<Rightarrow>
          (case cmd_tool of
             Some cmd \<Rightarrow>
               if cmd \<noteq> [] then
                 if output_locked env then (evs, Inl OSError)
                 else
                   (case run_script env cmd key of
                      Completed \<Rightarrow> (evs @ [Invoked cmd], Inr ())
                    | CalledProcessError e t \<Rightarrow>
                        (evs @ [Invoked cmd],
                         Inl (Exception (cli_error @ (if e \<noteq> [] then e else t))))
                    | NotFound \<Rightarrow> (evs @ [Invoked cmd], Inl FileNotFoundError)
                    | Raised msg \<Rightarrow> (evs @ [Invoked cmd], Inl (OtherException msg)))
               else (evs, Inl (Exception error_detail))
           | None \<Rightarrow> (evs, Inl (Exception error_detail))))"

definition decrypt_db :: "environment \<Rightarrow> pystr \<Rightarrow> event list \<times> (error + unit)" where
  "decrypt_db env key =
     (case library_strategy env key of
        (evs, Some r) \<Rightarrow> (evs, r)
      | (evs, None) \<Rightarrow> (case tool_strategy env key of (evs', r) \<Rightarrow> (evs @ evs', r)))"





definition ex_bare_env :: environment where
  "ex_bare_env =
     \<lparr>win32 = False, output_locked = False, sqlcipher = None,
      probe = (\<lambda>cmd. if cmd = S ''sqlcipher'' then CalledProcessError [] (S ''exit 1'') else NotFound),
      run_script = (\<lambda>cmd key. Completed)\<rparr>"

section \<open>Properties of key derivation\<close>

lemma slice_from: "py_slice xs (Some (int k)) None = drop k xs"
  by (cases "k \<le> length xs") (simp_all add: py_slice_def clamp_index_def Let_def min_def)

lemma slice_last8:
  assumes "54 \<le> length content"
  shows "py_slice (take 54 content) (Some (- 8)) None = take 8 (drop 46 content)"
proof -
  have "length (take 54 content) = 54" using assms by simp
  then have "py_slice (take 54 content) (Some (- 8)) None = take 8 (drop 46 (take 54 content))"
    by (simp add: py_slice_def clamp_index_def)
  also have "\<dots> = take 8 (drop 46 content)"
    by (simp add: drop_take)
  finally show ?thesis .
qed

lemma slice_short:
  assumes "length content < 54"
  shows "py_slice (take 54 content) (Some (- 8)) None = drop (length content - 8) content"
  using assms by (simp add: py_slice_def clamp_index_def nat_diff_distrib')

lemma slice_repr: "py_slice (bytes_repr bs) (Some 2) (Some (- 1)) = repr_body bs"
  by (simp add: py_slice_def clamp_index_def bytes_repr_def)

lemma hexdigit_ascii: "d < 16 \<Longrightarrow> hexdigit d < 128"
  by (simp add: hexdigit_def)

lemma hexdigit_lower: "d < 16 \<Longrightarrow> (48 \<le> hexdigit d \<and> hexdigit d \<le> 57) \<or> (97 \<le> hexdigit d \<and> hexdigit d \<le> 102)"
  by (auto simp add: hexdigit_def)

lemma unat_byte_div16: "unat (b :: byte) div 16 < 16"
proof -
  have "unat b < 256" using unsigned_less [of b] by simp
  then show ?thesis by simp
qed

lemma lower_hex_hex_byte: "lower_hex (hex_byte b)"
  using hexdigit_lower [OF unat_byte_div16 [of b]] hexdigit_lower [of "unat b mod 16"]
  by (simp add: lower_hex_def hex_byte_def)

lemma lower_hex_append: "lower_hex (xs @ ys) \<longleftrightarrow> lower_hex xs \<and> lower_hex ys"
  by (simp add: lower_hex_def)

lemma lower_hex_hexdigest: "lower_hex (hexdigest bs)"
  by (induction bs) (simp_all add: hexdigest_def lower_hex_append lower_hex_hex_byte, simp add: lower_hex_def)

lemma length_hexdigest: "length (hexdigest bs) = 2 * length bs"
  by (induction bs) (simp_all add: hexdigest_def hex_byte_def)

lemma length_le_bytes: "length (le_bytes k w) = k"
  by (simp add: le_bytes_def)

lemma length_md5_digest: "length (md5_digest m) = 16"
  by (simp add: md5_digest_def Let_def length_le_bytes split: prod.splits)


lemma ascii_encodable: "ascii s \<Longrightarrow> encodable s"
  by (induction s) (auto simp add: ascii_def encodable_def scalar_value_def)

lemma lower_hex_ascii: "lower_hex s \<Longrightarrow> ascii s"
  by (induction s) (auto simp add: ascii_def lower_hex_def)

lemma ascii_append: "ascii (xs @ ys) \<longleftrightarrow> ascii xs \<and> ascii ys"
  by (simp add: ascii_def)

lemma ascii_hex_byte: "ascii (hex_byte b)"
  by (rule lower_hex_ascii) (rule lower_hex_hex_byte)

lemma ascii_escape_byte: "q < 128 \<Longrightarrow> ascii (escape_byte q b)"
  using ascii_hex_byte [of b]
  by (auto simp add: escape_byte_def Let_def ascii_def)

lemma bytes_quote_ascii: "bytes_quote bs < 128"
  by (simp add: bytes_quote_def)

lemma ascii_concat: "(\<And>x. x \<in> set xs \<Longrightarrow> ascii (f x)) \<Longrightarrow> ascii (concat (map f xs))"
  by (induction xs) (simp_all add: ascii_append, simp add: ascii_def)

lemma ascii_repr_body: "ascii (repr_body bs)"
  unfolding repr_body_def
  by (rule ascii_concat) (rule ascii_escape_byte [OF bytes_quote_ascii])

lemma md5_encodable: "encodable s \<Longrightarrow> md5 s = Inr (hexdigest (md5_digest (utf8 s)))"
  by (simp add: md5_def encode_utf8_def)

lemma md5_not_encodable: "\<not> encodable s \<Longrightarrow> md5 s = Inl UnicodeEncodeError"
  by (simp add: md5_def encode_utf8_def)

lemma get_key_readable:
  assumes "encodable nt_uid"
  shows "get_key nt_uid (Some content) =
           Inr (spec_key nt_uid (py_slice (take 54 content) (Some (- 8)) None))"
proof -
  let ?seed = "py_slice (take 54 content) (Some (- 8)) None"
  have "ascii (hexdigest (md5_digest (utf8 nt_uid)) @ repr_body ?seed)"
    by (simp add: ascii_append ascii_repr_body lower_hex_ascii lower_hex_hexdigest)
  then have "encodable (hexdigest (md5_digest (utf8 nt_uid)) @ repr_body ?seed)"
    by (rule ascii_encodable)
  then show ?thesis
    using assms
    by (simp add: get_key_def Let_def md5_encodable slice_repr spec_key_def)
qed


lemma get_key_long:
  assumes "encodable nt_uid" and "54 \<le> length content"
  shows "get_key nt_uid (Some content) = Inr (spec_key nt_uid (take 8 (drop 46 content)))"
  using get_key_readable [OF assms(1), of content] slice_last8 [OF assms(2)] by simp

subsection \<open>Test vectors\<close>

text \<open>
  The digest of RFC 1321 for the empty message, a key computed from a header whose seed
  bytes need every kind of escape, and one whose second message fills two blocks.
\<close>

lemma utf8_Nil: "utf8 [] = []"
  by (simp add: utf8_def)

lemma md5_digest_empty: "hexdigest (md5_digest []) = S ''d41d8cd98f00b204e9800998ecf8427e''"
  by code_simp

lemma utf8_md5_empty:
  "utf8 (S ''d41d8cd98f00b204e9800998ecf8427e'') =
     [100, 52, 49, 100, 56, 99, 100, 57, 56, 102, 48, 48, 98, 50, 48, 52,
      101, 57, 56, 48, 48, 57, 57, 56, 101, 99, 102, 56, 52, 50, 55, 101]"
  by (simp add: S_def utf8_def utf8_char_def)

lemma md5_digest_twice_empty:
  "hexdigest (md5_digest
     [100, 52, 49, 100, 56, 99, 100, 57, 56, 102, 48, 48, 98, 50, 48, 52,
      101, 57, 56, 48, 48, 57, 57, 56, 101, 99, 102, 56, 52, 50, 55, 101]) =
   S ''74be16979710d4c4e7c6647856088456''"
  by code_simp

lemma spec_key_empty: "spec_key [] [] = S ''74be16979710d4c4e7c6647856088456''"
  by (simp add: spec_key_def utf8_Nil md5_digest_empty repr_body_def utf8_md5_empty
      md5_digest_twice_empty)

lemma md5_digest_u_abc:
  "hexdigest (md5_digest [117, 95, 97, 98, 99]) = S ''cfdb1dc296fc324932dc665b52a08419''"
  by code_simp

lemma repr_body_example:
  "repr_body [0x41, 0x27, 0x00, 0xFF, 0x5C, 0x0A, 0x7E, 0x20] =
     [65, 39, 92, 120, 48, 48, 92, 120, 102, 102, 92, 92, 92, 110, 126, 32]"
  by (simp add: repr_body_def bytes_quote_def escape_byte_def hex_byte_def hexdigit_def S_def)

lemma utf8_example:
  "utf8 (S ''cfdb1dc296fc324932dc665b52a08419'' @ [65, 39, 92, 120, 48, 48, 92, 120, 102, 102, 92, 92, 92, 110, 126, 32]) =
     [99, 102, 100, 98, 49, 100, 99, 50, 57, 54, 102, 99, 51, 50, 52, 57,
      51, 50, 100, 99, 54, 54, 53, 98, 53, 50, 97, 48, 56, 52, 49, 57,
      65, 39, 92, 120, 48, 48, 92, 120, 102, 102, 92, 92, 92, 110, 126, 32]"
  by (simp add: S_def utf8_def utf8_char_def)

lemma md5_digest_example:
  "hexdigest (md5_digest
     [99, 102, 100, 98, 49, 100, 99, 50, 57, 54, 102, 99, 51, 50, 52, 57,
      51, 50, 100, 99, 54, 54, 53, 98, 53, 50, 97, 48, 56, 52, 49, 57,
      65, 39, 92, 120, 48, 48, 92, 120, 102, 102, 92, 92, 92, 110, 126, 32]) =
   S ''38e6ca0a2b31c088a700c6b95069c771''"
  by code_simp

lemma get_key_example:
  "get_key (S ''u_abc'')
     (Some (replicate 46 0 @ [0x41, 0x27, 0x00, 0xFF, 0x5C, 0x0A, 0x7E, 0x20] @ replicate 970 0)) =
   Inr (S ''38e6ca0a2b31c088a700c6b95069c771'')"
proof -
  have e: "encodable (S ''u_abc'')"
    by (simp add: encodable_def scalar_value_def S_def)
  have u: "utf8 (S ''u_abc'') = [117, 95, 97, 98, 99]"
    by (simp add: S_def utf8_def utf8_char_def)
  have "spec_key (S ''u_abc'') [0x41, 0x27, 0x00, 0xFF, 0x5C, 0x0A, 0x7E, 0x20] = S ''38e6ca0a2b31c088a700c6b95069c771''"
    unfolding spec_key_def u md5_digest_u_abc repr_body_example utf8_example md5_digest_example ..
  then show ?thesis
    using get_key_long [OF e, of "replicate 46 0 @ [0x41, 0x27, 0x00, 0xFF, 0x5C, 0x0A, 0x7E, 0x20] @ replicate 970 0"]
    by simp
qed

lemma get_key_not_encodable:
  "\<not> encodable nt_uid \<Longrightarrow> get_key nt_uid (Some content) = Inl UnicodeEncodeError"
  by (simp add: get_key_def Let_def md5_not_encodable)

lemma repr_body_zeros:
  "repr_body [0, 0, 0, 0, 0, 0, 0, 0] =
     [92, 120, 48, 48, 92, 120, 48, 48, 92, 120, 48, 48, 92, 120, 48, 48,
      92, 120, 48, 48, 92, 120, 48, 48, 92, 120, 48, 48, 92, 120, 48, 48]"
  by (simp add: repr_body_def bytes_quote_def escape_byte_def hex_byte_def hexdigit_def)

lemma utf8_two_blocks:
  "utf8 (S ''cfdb1dc296fc324932dc665b52a08419'' @
     [92, 120, 48, 48, 92, 120, 48, 48, 92, 120, 48, 48, 92, 120, 48, 48,
      92, 120, 48, 48, 92, 120, 48, 48, 92, 120, 48, 48, 92, 120, 48, 48]) =
     [99, 102, 100, 98, 49, 100, 99, 50, 57, 54, 102, 99, 51, 50, 52, 57,
      51, 50, 100, 99, 54, 54, 53, 98, 53, 50, 97, 48, 56, 52, 49, 57,
      92, 120, 48, 48, 92, 120, 48, 48, 92, 120, 48, 48, 92, 120, 48, 48,
      92, 120, 48, 48, 92, 120, 48, 48, 92, 120, 48, 48, 92, 120, 48, 48]"
  by (simp add: S_def utf8_def utf8_char_def)

lemma md5_digest_two_blocks:
  "hexdigest (md5_digest
     [99, 102, 100, 98, 49, 100, 99, 50, 57, 54, 102, 99, 51, 50, 52, 57,
      51, 50, 100, 99, 54, 54, 53, 98, 53, 50, 97, 48, 56, 52, 49, 57,
      92, 120, 48, 48, 92, 120, 48, 48, 92, 120, 48, 48, 92, 120, 48, 48,
      92, 120, 48, 48, 92, 120, 48, 48, 92, 120, 48, 48, 92, 120, 48, 48]) =
   S ''bba27c9ea73dde07b20c15fd19c67d8a''"
  by code_simp

lemma get_key_zero_header:
  "get_key (S ''u_abc'') (Some (replicate 1024 0)) = Inr (S ''bba27c9ea73dde07b20c15fd19c67d8a'')"
proof -
  have e: "encodable (S ''u_abc'')"
    by (simp add: encodable_def scalar_value_def S_def)
  have u: "utf8 (S ''u_abc'') = [117, 95, 97, 98, 99]"
    by (simp add: S_def utf8_def utf8_char_def)
  have z: "take 8 (drop 46 (replicate 1024 (0 :: byte))) = [0, 0, 0, 0, 0, 0, 0, 0]"
    by (simp add: numeral_eq_Suc)
  have "spec_key (S ''u_abc'') [0, 0, 0, 0, 0, 0, 0, 0] = S ''bba27c9ea73dde07b20c15fd19c67d8a''"
    unfolding spec_key_def u md5_digest_u_abc repr_body_zeros utf8_two_blocks md5_digest_two_blocks ..
  then show ?thesis
    using get_key_long [OF e, of "replicate 1024 0"] z
    by simp
qed

text \<open>
  C1. The claim says that \<open>get_key\<close> returns the key for every identifier string. A
  Python string may hold a lone surrogate, which has no UTF-8 encoding: on the identifier
  made of the one code point D800 (hexadecimal) \<open>encode\<close> raises and no key is returned.
\<close>

theorem get_key_surrogate_counterexample:
  "get_key [55296] (Some (replicate 54 0)) = Inl UnicodeEncodeError"
  by (rule get_key_not_encodable) (simp add: encodable_def scalar_value_def)

text \<open>
  C1, amended. For an installation identifier that has a UTF-8 encoding and a readable file
  of at least 54 bytes, \<open>get_key\<close> returns the hex MD5 of the hex MD5 of the identifier
  followed by the seed string, where the seed string is the body of the escaped literal of
  bytes 46..53 of the file; the key has 32 characters, each a digit or a lowercase letter
  a..f. Being a function of its two arguments, \<open>get_key\<close> gives equal keys on equal inputs.
\<close>

theorem get_key_formula:
  assumes "encodable nt_uid" and "54 \<le> length content"
  shows "get_key nt_uid (Some content) = Inr (spec_key nt_uid (take 8 (drop 46 content)))
         \<and> length (spec_key nt_uid (take 8 (drop 46 content))) = 32
         \<and> lower_hex (spec_key nt_uid (take 8 (drop 46 content)))"
proof -
  have "get_key nt_uid (Some content) = Inr (spec_key nt_uid (take 8 (drop 46 content)))"
    using assms by (rule get_key_long)
  moreover have "length (spec_key nt_uid (take 8 (drop 46 content))) = 32"
    by (simp add: spec_key_def length_hexdigest length_md5_digest)
  moreover have "lower_hex (spec_key nt_uid (take 8 (drop 46 content)))"
    by (simp add: spec_key_def lower_hex_hexdigest)
  ultimately show ?thesis by simp
qed

theorem get_key_formula_witness:
  "encodable [117, 95, 97] \<and> 54 \<le> length (replicate 54 (7 :: byte))
   \<and> get_key [117, 95, 97] (Some (replicate 54 7)) = Inr (spec_key [117, 95, 97] (replicate 8 7))
   \<and> length (spec_key [117, 95, 97] (replicate 8 7)) = 32
   \<and> lower_hex (spec_key [117, 95, 97] (replicate 8 7))"
proof -
  have e: "encodable [117, 95, 97]"
    by (simp add: encodable_def scalar_value_def)
  have l: "54 \<le> length (replicate 54 (7 :: byte))"
    by simp
  show ?thesis
    using e l get_key_formula [OF e l] by simp
qed

text \<open>
  C9. The claim says that a file shorter than 54 bytes makes \<open>get_key\<close> fail. The code has no
  length check: \<open>read(54)\<close> returns what there is and the slice \<open>[-8:]\<close> takes at most
  the last eight bytes of it, so on the empty file the key of the empty seed comes back.
\<close>

theorem get_key_short_counterexample:
  "get_key [] (Some []) = Inr (S ''74be16979710d4c4e7c6647856088456'')"
  using get_key_readable [of "[]" "[]"] spec_key_empty
  by (simp add: encodable_def py_slice_def clamp_index_def)

text \<open>
  C9, amended. A file that cannot be opened makes \<open>get_key\<close> fail with the error of
  \<open>open\<close>; a readable file shorter than 54 bytes does not: for an identifier that has a
  UTF-8 encoding the key derived from the last (at most eight) bytes of the file is
  returned.
\<close>

theorem get_key_short:
  "get_key nt_uid None = Inl OSError
   \<and> (encodable nt_uid \<and> length content < 54 \<longrightarrow>
        get_key nt_uid (Some content) =
          Inr (spec_key nt_uid (drop (length content - 8) content)))"
proof -
  have "get_key nt_uid None = Inl OSError"
    by (simp add: get_key_def)
  moreover have "get_key nt_uid (Some content) =
      Inr (spec_key nt_uid (drop (length content - 8) content))"
    if "encodable nt_uid" and "length content < 54"
    using get_key_readable [OF that(1), of content] slice_short [OF that(2)] by simp
  ultimately show ?thesis by simp
qed

theorem get_key_short_witness:
  "get_key [] None = Inl OSError
   \<and> encodable [] \<and> length [1, 2, 3 :: byte] < 54
   \<and> get_key [] (Some [1, 2, 3]) = Inr (spec_key [] [1, 2, 3])"
  using get_key_short [of "[]" "[1, 2, 3]"]
  by (simp add: encodable_def)

section \<open>Properties of header stripping\<close>

text \<open>
  C7. The claim says that an input shorter than 1024 bytes makes \<open>remove_header\<close> fail. The
  code slices \<open>[1024:]\<close>, which is empty on a short input, and writes that: on the empty
  file it succeeds and writes the empty file.
\<close>

theorem remove_header_short_counterexample:
  "remove_header (Some []) = Inr []"
  by (simp add: remove_header_def py_slice_def clamp_index_def)

text \<open>
  C7, amended. For every readable input \<open>remove_header\<close> writes exactly the input's bytes
  from offset 1024 onward; for an input of at least 1024 bytes the output is 1024 bytes
  shorter than the input, and for a shorter input the call succeeds and the output is empty.
\<close>

theorem remove_header_drop:
  "remove_header (Some content) = Inr (drop 1024 content)
   \<and> (1024 \<le> length content \<longrightarrow>
        int (length (drop 1024 content)) = int (length content) - 1024)
   \<and> (length content < 1024 \<longrightarrow> remove_header (Some content) = Inr [])"
  using slice_from [of content 1024]
  by (simp add: remove_header_def)

theorem remove_header_drop_witness:
  "remove_header (Some (replicate 1030 (9 :: byte))) = Inr (replicate 6 9)
   \<and> 1024 \<le> length (replicate 1030 (9 :: byte))
   \<and> int (length (drop 1024 (replicate 1030 (9 :: byte)))) = int (length (replicate 1030 (9 :: byte))) - 1024
   \<and> length [5 :: byte] < 1024 \<and> remove_header (Some [5]) = Inr []"
  using remove_header_drop [of "replicate 1030 9"] remove_header_drop [of "[5]"]
  by simp

section \<open>Properties of the two imports\<close>

lemma stored_Member_simps [simp]:
  "group_id (stored_Member m) = group_id m"
  "user_id (stored_Member m) = user_id m"
  "user_name (stored_Member m) = to_text (user_name m)"
  "user_group_name (stored_Member m) = to_text (user_group_name m)"
  "member_key (stored_Member m) = member_key m"
  by (simp_all add: stored_Member_def member_key_def)

lemma stored_Group_simps [simp]:
  "g_group_id (stored_Group g) = g_group_id g"
  "group_name (stored_Group g) = to_text (group_name g)"
  by (simp_all add: stored_Group_def)

lemma bulk_save_objects_append:
  "bulk_save_objects ms tbl = Inr tbl' \<Longrightarrow> tbl' = tbl @ map stored_Member ms"
proof (induction ms arbitrary: tbl)
  case Nil
  then show ?case by simp
next
  case (Cons m ms)
  from Cons.prems have "bulk_save_objects ms (tbl @ [stored_Member m]) = Inr tbl'"
    by (simp split: if_splits)
  from Cons.IH [OF this] show ?case by simp
qed

declare load_members.simps(2) [simp del]

lemma load_members_skip:
  "\<not> kept qq row \<Longrightarrow> load_members qq (row # rows) batch tbl = load_members qq rows batch tbl"
  by (auto simp add: kept_def Let_def load_members.simps(2))

lemma load_members_kept:
  "kept qq row \<Longrightarrow>
   load_members qq (row # rows) batch tbl =
     (if length (batch @ [member_of_row row]) \<ge> BATCH_SIZE
      then (case bulk_save_objects (batch @ [member_of_row row]) tbl of
              Inl e \<Rightarrow> Inl e
            | Inr tbl' \<Rightarrow> load_members qq rows [] tbl')
      else load_members qq rows (batch @ [member_of_row row]) tbl)"
  by (simp add: kept_def member_of_row_def Let_def load_members.simps(2))

lemma load_members_rows:
  "load_members qq rows batch tbl = Inr (batch', tbl') \<Longrightarrow>
     tbl' @ map stored_Member batch' =
       tbl @ map stored_Member batch
         @ map (\<lambda>row. stored_Member (member_of_row row)) (filter (kept qq) rows)"
proof (induction rows arbitrary: batch tbl)
  case Nil
  then show ?case by simp
next
  case (Cons row rows)
  show ?case
  proof (cases "kept qq row")
    case False
    then have "load_members qq (row # rows) batch tbl = load_members qq rows batch tbl"
      by (rule load_members_skip)
    with Cons False show ?thesis by simp
  next
    case True
    let ?b = "batch @ [member_of_row row]"
    show ?thesis
    proof (cases "length ?b \<ge> BATCH_SIZE")
      case big: True
      with True Cons.prems obtain t where
        t: "bulk_save_objects ?b tbl = Inr t" and
        r: "load_members qq rows [] t = Inr (batch', tbl')"
        by (auto simp add: load_members_kept split: sum.splits)
      from t have "t = tbl @ map stored_Member ?b" by (rule bulk_save_objects_append)
      with Cons.IH [OF r] True show ?thesis by simp
    next
      case small: False
      with True Cons.prems have "load_members qq rows ?b tbl = Inr (batch', tbl')"
        by (simp add: load_members_kept)
      from Cons.IH [OF this] True show ?thesis by simp
    qed
  qed
qed

lemma db_cleared: "d\<lparr>members := [], groups := []\<rparr> = \<lparr>groups = [], members = []\<rparr>"
  by simp

lemma etl_transaction_prior: "etl_transaction src qq d0 = etl_transaction src qq d0'"
  by (simp only: etl_transaction_def Let_def db_cleared)

lemma etl_transaction_members:
  assumes "etl_transaction src qq d0 = Inr d"
  shows "\<exists>grows mrows. group_list src = Some grows \<and> group_member3 src = Some mrows
           \<and> groups d = load_groups grows []
           \<and> members d = map (\<lambda>row. stored_Member (member_of_row row)) (filter (kept qq) mrows)"
proof -
  from assms obtain grows where g: "group_list src = Some grows"
    by (auto simp add: etl_transaction_def Let_def split: option.splits)
  from assms g obtain mrows where m: "group_member3 src = Some mrows"
    by (auto simp add: etl_transaction_def Let_def split: option.splits)
  from assms g m obtain batch tbl where
    l: "load_members qq mrows [] [] = Inr (batch, tbl)"
    by (auto simp add: etl_transaction_def Let_def split: sum.splits)
  from load_members_rows [OF l]
  have rows: "tbl @ map stored_Member batch =
      map (\<lambda>row. stored_Member (member_of_row row)) (filter (kept qq) mrows)"
    by simp
  from assms g m l have "groups d = load_groups grows []"
    by (auto simp add: etl_transaction_def Let_def split: sum.splits if_splits)
  moreover have "members d =
      map (\<lambda>row. stored_Member (member_of_row row)) (filter (kept qq) mrows)"
  proof (cases "batch = []")
    case True
    with assms g m l rows show ?thesis
      by (auto simp add: etl_transaction_def Let_def)
  next
    case False
    with assms g m l obtain t where t: "bulk_save_objects batch tbl = Inr t" and "members d = t"
      by (auto simp add: etl_transaction_def Let_def split: sum.splits)
    with bulk_save_objects_append [OF t] rows show ?thesis by simp
  qed
  ultimately show ?thesis using g m by simp
qed


lemma set_merge_Member: "set (merge_Member m tbl) \<subseteq> insert (stored_Member m) (set tbl)"
  by (induction tbl) auto

lemma json_members_no_self:
  "json_members qq gid ms tbl = Some tbl' \<Longrightarrow> \<forall>m\<in>set tbl. user_id m \<noteq> qq \<Longrightarrow>
   \<forall>m\<in>set tbl'. user_id m \<noteq> qq"
proof (induction qq gid ms tbl rule: json_members.induct)
  case (1 qq_id gid tbl)
  then show ?case by simp
next
  case (2 qq_id gid uid u_info rest tbl)
  show ?case
  proof (cases "uid = qq_id")
    case True
    with 2 show ?thesis by simp
  next
    case False
    with "2.prems"(1) obtain ui n gn where
      u: "u_info = JDict ui" and
      n: "bind (dict_get ui (S ''user_name'') (JStr [])) = Some n" and
      gn: "bind (dict_get ui (S ''user_group_name'') (JStr [])) = Some gn" and
      e: "encodable uid" and
      r: "json_members qq_id gid rest
            (merge_Member \<lparr>group_id = gid, user_id = uid, user_name = n, user_group_name = gn\<rparr> tbl)
          = Some tbl'"
      by (auto split: json.splits option.splits if_splits)
    let ?m = "\<lparr>group_id = gid, user_id = uid, user_name = n, user_group_name = gn\<rparr>"
    have "\<forall>m\<in>set (merge_Member ?m tbl). user_id m \<noteq> qq_id"
      using set_merge_Member [of ?m tbl] "2.prems"(2) False by auto
    with "2.IH"(2) [OF False u _ n gn e r] show ?thesis by simp
  qed
qed


lemma json_groups_no_self:
  "json_groups qq items d = Some d' \<Longrightarrow> \<forall>m\<in>set (members d). user_id m \<noteq> qq \<Longrightarrow>
   \<forall>m\<in>set (members d'). user_id m \<noteq> qq"
proof (induction items arbitrary: d)
  case Nil
  then show ?case by simp
next
  case (Cons item items)
  obtain gid g_info where item: "item = (gid, g_info)" by (cases item)
  from Cons.prems(1) item obtain gi g_name ms tbl where
    tbl: "json_members qq gid ms (members d) = Some tbl" and
    r: "json_groups qq items
          \<lparr>groups = merge_Group \<lparr>g_group_id = gid, group_name = g_name\<rparr> (groups d),
           members = tbl\<rparr> = Some d'"
    by (auto split: json.splits option.splits if_splits)
  from json_members_no_self [OF tbl Cons.prems(2)]
  have "\<forall>m\<in>set tbl. user_id m \<noteq> qq" .
  with Cons.IH [OF r] show ?case by simp
qed

lemma json_transaction_prior: "json_transaction data qq d0 = json_transaction data qq d0'"
  by (simp only: json_transaction_def Let_def db_cleared)

lemma json_transaction_no_self:
  assumes "json_transaction data qq d0 = Some d"
  shows "\<forall>m\<in>set (members d). user_id m \<noteq> qq"
proof -
  from assms obtain items where
    "json_groups qq items (d0\<lparr>members := [], groups := []\<rparr>) = Some d"
    by (auto simp add: json_transaction_def Let_def split: json.splits)
  from json_groups_no_self [OF this] show ?thesis by simp
qed

lemma etl_transaction_no_self:
  assumes "etl_transaction src qq d0 = Inr d"
  shows "\<forall>m\<in>set (members d). user_id m \<noteq> qq"
  using etl_transaction_members [OF assms]
  by (auto simp add: member_of_row_def kept_def)

text \<open>
  C2. After an import that completes, by the raw tables or by the structured upload, the
  account's database holds no member row whose \<open>user_id\<close> is the importing account,
  whatever rows the source has.
\<close>

theorem self_exclusion:
  "(clean_data_to_analysis_db src qq st = (Inr (), st') \<longrightarrow>
      (\<exists>d. st' qq = Some d \<and> (\<forall>m\<in>set (members d). user_id m \<noteq> qq)))
   \<and> (process_json upload qq st = (Inr (), st') \<longrightarrow>
      (\<exists>d. st' qq = Some d \<and> (\<forall>m\<in>set (members d). user_id m \<noteq> qq)))"
proof (intro conjI impI)
  assume "clean_data_to_analysis_db src qq st = (Inr (), st')"
  then obtain d where "etl_transaction src qq (init_user_db st qq) = Inr d" and "st' qq = Some d"
    by (auto simp add: clean_data_to_analysis_db_def Let_def split: sum.splits)
  with etl_transaction_no_self [of src qq "init_user_db st qq" d]
  show "\<exists>d. st' qq = Some d \<and> (\<forall>m\<in>set (members d). user_id m \<noteq> qq)" by simp
next
  assume "process_json upload qq st = (Inr (), st')"
  then obtain data d where
    "json_transaction data qq (init_user_db st qq) = Some d" and "st' qq = Some d"
    by (auto simp add: process_json_def Let_def split: option.splits)
  with json_transaction_no_self [of data qq "init_user_db st qq" d]
  show "\<exists>d. st' qq = Some d \<and> (\<forall>m\<in>set (members d). user_id m \<noteq> qq)" by simp
qed

lemma int_str_examples:
  "int_str 1 = S ''1''" "int_str 2 = S ''2''" "int_str 1000 = S ''1000''" "int_str 2000 = S ''2000''"
  "int_str 3000 = S ''3000''" "int_str (- 12) = S ''-12''"
  by (simp_all add: int_str_def digits.simps S_def)

lemma ex_src_etl: "etl_transaction ex_src (S ''1000'') d0 = Inr ex_db"
  by (simp add: etl_transaction_def ex_src_def ex_db_def Let_def load_members.simps(2)
      int_str_examples BATCH_SIZE_def S_def member_key_def stored_Member_def stored_Group_def)


lemma ex_json_transaction: "json_transaction ex_json (S ''1000'') d0 = Some ex_json_db"
  by (simp add: json_transaction_def ex_json_def ex_json_db_def Let_def dict_get_def S_def
      encodable_def scalar_value_def stored_Member_def stored_Group_def)

lemma clean_data_success:
  "etl_transaction src qq (init_user_db st qq) = Inr d \<Longrightarrow>
   clean_data_to_analysis_db src qq st = (Inr (), st(qq \<mapsto> d))"
  by (simp add: clean_data_to_analysis_db_def Let_def)

lemma clean_data_failure:
  "etl_transaction src qq (init_user_db st qq) = Inl e \<Longrightarrow>
   clean_data_to_analysis_db src qq st = (Inl (CleaningFailed e), st(qq \<mapsto> init_user_db st qq))"
  by (simp add: clean_data_to_analysis_db_def Let_def)

lemma process_json_success:
  "json_transaction data qq (init_user_db st qq) = Some d \<Longrightarrow>
   process_json (Some data) qq st = (Inr (), st(qq \<mapsto> d))"
  by (simp add: process_json_def Let_def)

lemma process_json_failure:
  "json_transaction data qq (init_user_db st qq) = None \<Longrightarrow>
   process_json (Some data) qq st = (Inl (HTTPException 500), st(qq \<mapsto> init_user_db st qq))"
  by (simp add: process_json_def Let_def)

lemma init_user_db_upd: "init_user_db (st(qq \<mapsto> d)) qq = d"
  by (simp add: init_user_db_def)

lemma clean_data_twice:
  "clean_data_to_analysis_db src qq (snd (clean_data_to_analysis_db src qq st)) =
   clean_data_to_analysis_db src qq st"
proof (cases "etl_transaction src qq (init_user_db st qq)")
  case (Inl e)
  let ?st1 = "st(qq \<mapsto> init_user_db st qq)"
  have "etl_transaction src qq (init_user_db ?st1 qq) = Inl e"
    using Inl etl_transaction_prior [of src qq "init_user_db ?st1 qq" "init_user_db st qq"] by simp
  from clean_data_failure [OF this] clean_data_failure [OF Inl]
  show ?thesis by (simp add: init_user_db_upd)
next
  case (Inr d)
  let ?st1 = "st(qq \<mapsto> d)"
  have "etl_transaction src qq (init_user_db ?st1 qq) = Inr d"
    using Inr etl_transaction_prior [of src qq "init_user_db ?st1 qq" "init_user_db st qq"] by simp
  from clean_data_success [OF this] clean_data_success [OF Inr]
  show ?thesis by simp
qed

lemma process_json_twice:
  "process_json upload qq (snd (process_json upload qq st)) = process_json upload qq st"
proof (cases upload)
  case None
  then show ?thesis by (simp add: process_json_def)
next
  case (Some data)
  show ?thesis
  proof (cases "json_transaction data qq (init_user_db st qq)")
    case None
    let ?st1 = "st(qq \<mapsto> init_user_db st qq)"
    have "json_transaction data qq (init_user_db ?st1 qq) = None"
      using None json_transaction_prior [of data qq "init_user_db ?st1 qq" "init_user_db st qq"]
      by simp
    from process_json_failure [OF this] process_json_failure [OF None] Some
    show ?thesis by (simp add: init_user_db_upd)
  next
    case (Some d)
    let ?st1 = "st(qq \<mapsto> d)"
    have "json_transaction data qq (init_user_db ?st1 qq) = Some d"
      using Some json_transaction_prior [of data qq "init_user_db ?st1 qq" "init_user_db st qq"]
      by simp
    from process_json_success [OF this] process_json_success [OF Some] \<open>upload = Some data\<close>
    show ?thesis by simp
  qed
qed

lemma clean_data_replaces:
  assumes "fst (clean_data_to_analysis_db src qq st) = Inr ()"
  shows "snd (clean_data_to_analysis_db src qq st) qq = snd (clean_data_to_analysis_db src qq st0) qq"
proof -
  from assms obtain d where d: "etl_transaction src qq (init_user_db st qq) = Inr d"
    by (auto simp add: clean_data_to_analysis_db_def Let_def split: sum.splits)
  then have "etl_transaction src qq (init_user_db st0 qq) = Inr d"
    using etl_transaction_prior [of src qq "init_user_db st0 qq" "init_user_db st qq"] by simp
  from clean_data_success [OF this] clean_data_success [OF d] show ?thesis by simp
qed

lemma process_json_replaces:
  assumes "fst (process_json upload qq st) = Inr ()"
  shows "snd (process_json upload qq st) qq = snd (process_json upload qq st0) qq"
proof -
  from assms obtain data d where f: "upload = Some data"
    and d: "json_transaction data qq (init_user_db st qq) = Some d"
    by (auto simp add: process_json_def Let_def split: option.splits)
  then have "json_transaction data qq (init_user_db st0 qq) = Some d"
    using json_transaction_prior [of data qq "init_user_db st0 qq" "init_user_db st qq"] by simp
  from process_json_success [OF this] process_json_success [OF d] f show ?thesis by simp
qed

text \<open>
  C3. Importing a source a second time, right after the first, changes neither the outcome
  nor the store, on either path; and when an import completes, the account's database is the
  one the same import leaves in any other store, so nothing of what was there before is left.
\<close>

theorem import_overwrite:
  "clean_data_to_analysis_db src qq (snd (clean_data_to_analysis_db src qq st)) =
     clean_data_to_analysis_db src qq st
   \<and> process_json upload qq (snd (process_json upload qq st)) = process_json upload qq st
   \<and> (fst (clean_data_to_analysis_db src qq st) = Inr () \<longrightarrow>
        snd (clean_data_to_analysis_db src qq st) qq =
        snd (clean_data_to_analysis_db src qq st0) qq)
   \<and> (fst (process_json upload qq st) = Inr () \<longrightarrow>
        snd (process_json upload qq st) qq = snd (process_json upload qq st0) qq)"
  using clean_data_twice [of src qq st] process_json_twice [of upload qq st]
    clean_data_replaces [of src qq st st0] process_json_replaces [of upload qq st st0]
  by simp

theorem import_overwrite_witness:
  "fst (clean_data_to_analysis_db ex_src (S ''1000'') [S ''1000'' \<mapsto> ex_json_db]) = Inr ()
   \<and> snd (clean_data_to_analysis_db ex_src (S ''1000'') [S ''1000'' \<mapsto> ex_json_db]) (S ''1000'')
       = Some ex_db
   \<and> snd (clean_data_to_analysis_db ex_src (S ''1000'') Map.empty) (S ''1000'') = Some ex_db
   \<and> fst (process_json (Some ex_json) (S ''1000'') [S ''1000'' \<mapsto> ex_db]) = Inr ()
   \<and> snd (process_json (Some ex_json) (S ''1000'') [S ''1000'' \<mapsto> ex_db]) (S ''1000'')
       = Some ex_json_db
   \<and> snd (process_json (Some ex_json) (S ''1000'') Map.empty) (S ''1000'') = Some ex_json_db"
  using import_overwrite [of ex_src "S ''1000''" "[S ''1000'' \<mapsto> ex_json_db]" "Some ex_json"
      Map.empty]
    import_overwrite [of ex_src "S ''1000''" "[S ''1000'' \<mapsto> ex_db]" "Some ex_json" Map.empty]
  by (simp add: clean_data_success [OF ex_src_etl] process_json_success [OF ex_json_transaction])

theorem self_exclusion_witness:
  "clean_data_to_analysis_db ex_src (S ''1000'') Map.empty = (Inr (), [S ''1000'' \<mapsto> ex_db])
   \<and> S ''1000'' \<notin> user_id ` set (members ex_db)
   \<and> process_json (Some ex_json) (S ''1000'') Map.empty = (Inr (), [S ''1000'' \<mapsto> ex_json_db])
   \<and> S ''1000'' \<notin> user_id ` set (members ex_json_db)"
proof -
  have a: "clean_data_to_analysis_db ex_src (S ''1000'') Map.empty =
      (Inr (), [S ''1000'' \<mapsto> ex_db])"
    by (simp add: clean_data_success [OF ex_src_etl])
  have b: "process_json (Some ex_json) (S ''1000'') Map.empty =
      (Inr (), [S ''1000'' \<mapsto> ex_json_db])"
    by (simp add: process_json_success [OF ex_json_transaction])
  from self_exclusion [of ex_src "S ''1000''" Map.empty "[S ''1000'' \<mapsto> ex_db]" "Some ex_json"] a
  have "\<forall>m\<in>set (members ex_db). user_id m \<noteq> S ''1000''"
    by simp
  then have c: "S ''1000'' \<notin> user_id ` set (members ex_db)"
    by auto
  from self_exclusion [of ex_src "S ''1000''" Map.empty "[S ''1000'' \<mapsto> ex_json_db]"
      "Some ex_json"] b
  have "\<forall>m\<in>set (members ex_json_db). user_id m \<noteq> S ''1000''"
    by simp
  then have d: "S ''1000'' \<notin> user_id ` set (members ex_json_db)"
    by auto
  from a b c d show ?thesis by simp
qed

section \<open>Properties of the queries\<close>

lemma ex_engine_sql: "sql_engine ex_engine"
proof -
  have "sorted_wrt (\<ge>) (map (\<lambda>(u, n, c). c) (rev (sort_key (\<lambda>(u, n, c). c) rs)))"
    for rs :: "(pystr \<times> sqlval \<times> nat) list"
  proof -
    have "sorted (map (\<lambda>(u, n, c). c) (sort_key (\<lambda>(u, n, c). c) rs))"
      by (rule sorted_sort_key)
    then show ?thesis
      by (simp add: rev_map [symmetric] sorted_wrt_rev del: rev_map)
  qed
  then show ?thesis
    by (simp add: sql_engine_def ex_engine_def)
qed

lemma map_fst_group_by_user:
  "map fst (group_by_user e rows) = group_order e (remdups (map user_id rows))"
  by (simp add: group_by_user_def comp_def)

lemma distinct_group_by_user: "sql_engine e \<Longrightarrow> distinct (map fst (group_by_user e rows))"
  by (simp add: map_fst_group_by_user sql_engine_def)

lemma group_by_user_rows:
  "sql_engine e \<Longrightarrow>
   (u, rs) \<in> set (group_by_user e rows) \<longleftrightarrow>
     u \<in> user_id ` set rows \<and> rs = filter (\<lambda>m. user_id m = u) rows"
  by (auto simp add: group_by_user_def sql_engine_def)

lemma group_by_user_subset:
  "(u, rs) \<in> set (group_by_user e rows) \<Longrightarrow> rs = filter (\<lambda>m. user_id m = u) rows"
  by (auto simp add: group_by_user_def)

lemma groups_of_user_in:
  "set (map group_id (filter (\<lambda>m. user_id m = u)
          (filter (\<lambda>m. group_id m \<in> set gs) (members d)))) =
   {g \<in> set gs. is_member d u g}"
  by (auto simp add: is_member_def)

lemma analyze_intersection_runs:
  assumes "st qq = Some d" and "gs \<noteq> []" and "bindable e gs"
  shows "analyze_intersection e st qq gs =
           Inr (map (\<lambda>(u, rows). (u, max_column e (map user_name rows)))
                  (filter (\<lambda>(u, rows). length (remdups (map group_id rows)) = length gs)
                     (group_by_user e (filter (\<lambda>m. group_id m \<in> set gs) (members d)))))"
  using assms
  by (simp add: analyze_intersection_def get_session_def bindable_def Let_def)

lemma intersection_result:
  assumes "sql_engine e" and "st qq = Some d" and "gs \<noteq> []" and "bindable e gs"
  shows "\<exists>r. analyze_intersection e st qq gs = Inr r \<and> distinct (map fst r)
           \<and> set (map fst r) =
               {u. (\<exists>g\<in>set gs. is_member d u g) \<and> card {g \<in> set gs. is_member d u g} = length gs}"
proof -
  let ?F = "filter (\<lambda>m. group_id m \<in> set gs) (members d)"
  let ?P = "\<lambda>(u, rows). length (remdups (map group_id rows)) = length gs"
  let ?h = "\<lambda>(u, rows). (u, max_column e (map user_name rows))"
  let ?r = "map ?h (filter ?P (group_by_user e ?F))"
  have r: "analyze_intersection e st qq gs = Inr ?r"
    using assms(2-4) by (rule analyze_intersection_runs)
  have fst: "map fst ?r = map fst (filter ?P (group_by_user e ?F))"
    by (auto simp add: comp_def split: prod.splits)
  have "distinct (map fst (group_by_user e ?F))"
    using assms(1) by (rule distinct_group_by_user)
  then have d: "distinct (map fst ?r)"
    unfolding fst by (rule distinct_map_filter)
  have "u \<in> set (map fst ?r) \<longleftrightarrow>
          (\<exists>g\<in>set gs. is_member d u g) \<and> card {g \<in> set gs. is_member d u g} = length gs" for u
  proof -
    have "u \<in> set (map fst ?r) \<longleftrightarrow>
            (\<exists>rs. (u, rs) \<in> set (group_by_user e ?F) \<and> length (remdups (map group_id rs)) = length gs)"
      unfolding fst by force
    also have "\<dots> \<longleftrightarrow> u \<in> user_id ` set ?F
        \<and> length (remdups (map group_id (filter (\<lambda>m. user_id m = u) ?F))) = length gs"
      by (simp add: group_by_user_rows [OF assms(1)])
    also have "length (remdups (map group_id (filter (\<lambda>m. user_id m = u) ?F))) =
        card {g \<in> set gs. is_member d u g}"
      unfolding length_remdups_card_conv groups_of_user_in ..
    also have "u \<in> user_id ` set ?F \<longleftrightarrow> (\<exists>g\<in>set gs. is_member d u g)"
      by (auto simp add: is_member_def)
    finally show ?thesis .
  qed
  then have "set (map fst ?r) =
      {u. (\<exists>g\<in>set gs. is_member d u g) \<and> card {g \<in> set gs. is_member d u g} = length gs}"
    by blast
  with r d show ?thesis by blast
qed

lemma card_members_distinct:
  assumes "distinct gs"
  shows "card {g \<in> set gs. is_member d u g} = length gs \<longleftrightarrow> (\<forall>g\<in>set gs. is_member d u g)"
proof -
  have sub: "{g \<in> set gs. is_member d u g} \<subseteq> set gs" by blast
  have len: "length gs = card (set gs)" using assms by (simp add: distinct_card)
  show ?thesis
  proof
    assume "card {g \<in> set gs. is_member d u g} = length gs"
    with len have "card {g \<in> set gs. is_member d u g} = card (set gs)" by simp
    with sub have "{g \<in> set gs. is_member d u g} = set gs"
      by (simp add: card_subset_eq)
    then show "\<forall>g\<in>set gs. is_member d u g" by blast
  next
    assume "\<forall>g\<in>set gs. is_member d u g"
    then have "{g \<in> set gs. is_member d u g} = set gs" by blast
    with len show "card {g \<in> set gs. is_member d u g} = length gs" by simp
  qed
qed

lemma card_members_duplicates:
  assumes "\<not> distinct gs"
  shows "card {g \<in> set gs. is_member d u g} \<noteq> length gs"
proof -
  have "card {g \<in> set gs. is_member d u g} \<le> card (set gs)"
    by (rule card_mono) auto
  moreover have "card (set gs) < length gs"
    using assms card_length [of gs] distinct_card [of gs] card_distinct [of gs]
    by (cases "card (set gs) = length gs") auto
  ultimately show ?thesis by simp
qed

lemma intersection_distinct_list:
  assumes "sql_engine e" and "st qq = Some d" and "gs \<noteq> []" and "bindable e gs"
    and "distinct gs"
  shows "\<exists>r. analyze_intersection e st qq gs = Inr r \<and> distinct (map fst r)
           \<and> set (map fst r) = {u. \<forall>g\<in>set gs. is_member d u g}"
proof -
  from intersection_result [where st = st and qq = qq, OF assms(1-4)] obtain r where
    r: "analyze_intersection e st qq gs = Inr r" "distinct (map fst r)" and
    s: "set (map fst r) =
         {u. (\<exists>g\<in>set gs. is_member d u g) \<and> card {g \<in> set gs. is_member d u g} = length gs}"
    by blast
  from assms(3) obtain g0 where "g0 \<in> set gs" by (cases gs) auto
  then have "(\<forall>g\<in>set gs. is_member d u g) \<Longrightarrow> (\<exists>g\<in>set gs. is_member d u g)" for u
    by blast
  with s have "set (map fst r) = {u. \<forall>g\<in>set gs. is_member d u g}"
    unfolding card_members_distinct [OF assms(5)] by blast
  with r show ?thesis by blast
qed

lemma intersection_duplicate_list:
  assumes "st qq = Some d" and "\<not> distinct gs" and "bindable e gs"
  shows "analyze_intersection e st qq gs = Inr []"
proof -
  let ?F = "filter (\<lambda>m. group_id m \<in> set gs) (members d)"
  let ?P = "\<lambda>(u, rows). length (remdups (map group_id rows)) = length gs"
  from assms(2) have ne: "gs \<noteq> []" by auto
  have "\<not> ?P x" if "x \<in> set (group_by_user e ?F)" for x
  proof -
    obtain u rs where x: "x = (u, rs)" by (cases x)
    from that [unfolded x] have "rs = filter (\<lambda>m. user_id m = u) ?F"
      by (rule group_by_user_subset)
    then have "length (remdups (map group_id rs)) = card {g \<in> set gs. is_member d u g}"
      unfolding length_remdups_card_conv by (simp only: groups_of_user_in)
    with card_members_duplicates [OF assms(2), of d u] x show ?thesis
      by simp
  qed
  then have "filter ?P (group_by_user e ?F) = []"
    by (simp add: filter_empty_conv)
  with analyze_intersection_runs [where st = st and qq = qq, OF assms(1) ne assms(3)]
  show ?thesis by simp
qed

lemma intersection_too_long:
  assumes "st qq = Some d" and "max_variables e \<le> length gs" and "gs \<noteq> []"
  shows "analyze_intersection e st qq gs = Inl (DatabaseError OperationalError)"
  using assms by (simp add: analyze_intersection_def get_session_def Let_def)

lemma user_groups_distinct:
  "distinct (map member_key ms) \<Longrightarrow> distinct (map group_id (filter (\<lambda>m. user_id m = u) ms))"
proof (induction ms)
  case Nil
  then show ?case by simp
next
  case (Cons m ms)
  then have ih: "distinct (map group_id (filter (\<lambda>m. user_id m = u) ms))"
    by simp
  from Cons.prems have "member_key m \<notin> member_key ` set ms"
    by simp
  then have "group_id m \<notin> group_id ` {x \<in> set ms. user_id x = user_id m}"
    by (auto simp add: member_key_def image_iff)
  with ih show ?case by auto
qed

lemma count_rows_is_distinct_count:
  assumes "distinct (map member_key (members d))"
  shows "length (filter (\<lambda>m. user_id m = u) (members d)) = distinct_group_count d u"
proof -
  have "distinct (map group_id (filter (\<lambda>m. user_id m = u) (members d)))"
    using assms by (rule user_groups_distinct)
  then have "remdups (map group_id (filter (\<lambda>m. user_id m = u) (members d))) =
      map group_id (filter (\<lambda>m. user_id m = u) (members d))"
    by (rule distinct_remdups_id)
  then have "length (remdups (map group_id (filter (\<lambda>m. user_id m = u) (members d)))) =
      length (filter (\<lambda>m. user_id m = u) (members d))"
    by (simp only: length_map)
  then show ?thesis by (simp only: distinct_group_count_def)
qed

lemma frequent_users_result:
  assumes "sql_engine e" and "st qq = Some d" and "in_int64 min_groups"
  shows "\<exists>r. get_frequent_users e st qq min_groups = Inr r
           \<and> distinct (map fst r)
           \<and> sorted_wrt (\<ge>) (map (\<lambda>(u, n, c). c) r)
           \<and> (\<forall>u n c. (u, n, c) \<in> set r \<longleftrightarrow>
                 u \<in> user_id ` set (members d)
                 \<and> n = bare_column e (filter (\<lambda>m. user_id m = u) (members d))
                 \<and> c = length (filter (\<lambda>m. user_id m = u) (members d))
                 \<and> min_groups \<le> int c)"
proof -
  let ?h = "\<lambda>(u, rows). (u, bare_column e rows, length rows)"
  let ?Q = "\<lambda>(u :: pystr, n :: sqlval, c). min_groups \<le> int c"
  let ?G = "group_by_user e (members d)"
  let ?xs = "filter ?Q (map ?h ?G)"
  let ?r = "order_by_count e ?xs"
  from assms(1) have
    pos: "0 < max_variables e" and
    set: "set ?r = set ?xs" and
    len: "length ?r = length ?xs" and
    s: "sorted_wrt (\<ge>) (map (\<lambda>(u, n, c). c) ?r)"
    by (simp_all add: sql_engine_def)
  have r: "get_frequent_users e st qq min_groups = Inr ?r"
    using assms(2,3) pos by (simp add: get_frequent_users_def get_session_def in_int64_def)
  have eq: "map fst (map ?h ?G) = map fst ?G"
    by (auto simp add: comp_def split: prod.splits)
  have "distinct (map fst ?G)"
    using assms(1) by (rule distinct_group_by_user)
  then have "distinct (map fst (map ?h ?G))"
    unfolding eq .
  then have "distinct (map fst ?xs)"
    by (rule distinct_map_filter)
  then have dx: "distinct ?xs" and inj: "inj_on fst (set ?xs)"
    by (simp_all add: distinct_map)
  from dx have "card (set ?xs) = length ?xs"
    by (rule distinct_card)
  with set len have "card (set ?r) = length ?r"
    by simp
  then have "distinct ?r"
    by (rule card_distinct)
  with inj set have d: "distinct (map fst ?r)"
    by (simp add: distinct_map)
  have m: "(u, n, c) \<in> set ?r \<longleftrightarrow>
          u \<in> user_id ` set (members d)
          \<and> n = bare_column e (filter (\<lambda>m. user_id m = u) (members d))
          \<and> c = length (filter (\<lambda>m. user_id m = u) (members d))
          \<and> min_groups \<le> int c" for u n c
    unfolding set using group_by_user_rows [OF assms(1), of u _ "members d"]
    by auto
  from r d s m show ?thesis by blast
qed

lemma frequent_users_overflow:
  assumes "sql_engine e" and "st qq = Some d" and "\<not> in_int64 min_groups"
  shows "get_frequent_users e st qq min_groups = Inl OverflowError"
  using assms
  by (auto simp add: get_frequent_users_def get_session_def in_int64_def sql_engine_def)

lemma ex_scenario_intersection:
  "analyze_intersection ex_engine [S ''1000'' \<mapsto> ex_scenario] (S ''1000'') [S ''G1'', S ''G2''] =
     Inr [(S ''B'', SText (S ''b'')), (S ''C'', SText (S ''c''))]"
  "analyze_intersection ex_engine [S ''1000'' \<mapsto> ex_scenario] (S ''1000'') [S ''G1''] =
     Inr [(S ''A'', SText (S ''a'')), (S ''B'', SText (S ''b'')), (S ''C'', SText (S ''c''))]"
  "analyze_intersection ex_engine [S ''1000'' \<mapsto> ex_scenario] (S ''1000'')
     [S ''G1'', S ''G2'', S ''G1''] = Inr []"
  by (simp_all add: analyze_intersection_def get_session_def ex_scenario_def group_by_user_def
      ex_engine_def text_max_def S_def encodable_def scalar_value_def)

lemma ex_scenario_frequent:
  "get_frequent_users ex_engine [S ''1000'' \<mapsto> ex_scenario] (S ''1000'') 2 =
     Inr [(S ''C'', SText (S ''c''), 2), (S ''B'', SText (S ''b''), 2)]"
  "get_frequent_users ex_engine [S ''1000'' \<mapsto> ex_scenario] (S ''1000'') 1 =
     Inr [(S ''C'', SText (S ''c''), 2), (S ''B'', SText (S ''b''), 2),
          (S ''D'', SText (S ''d''), 1), (S ''A'', SText (S ''a''), 1)]"
  by (simp_all add: get_frequent_users_def get_session_def ex_scenario_def group_by_user_def
      ex_engine_def S_def)


text \<open>
  C5. The claim says that the users returned are those in every group of the list. The code
  compares the number of distinct listed groups a user is in with the length of the list, so
  a list that names a group twice returns nobody: U1 is in G9, hence in every group of the
  list G9, G9, and is not returned.
\<close>

theorem intersection_counterexample:
  "is_member ex_json_db (S ''U1'') (S ''G9'')
   \<and> analyze_intersection ex_engine [S ''1000'' \<mapsto> ex_json_db] (S ''1000'') [S ''G9'', S ''G9'']
       = Inr []"
  by (simp add: analyze_intersection_def get_session_def ex_json_db_def group_by_user_def
      is_member_def ex_engine_def S_def encodable_def scalar_value_def)

text \<open>
  C5, amended. The intersection of the empty list is empty. For an account that has a
  database and a non-empty list without repetitions that the engine accepts (fewer ids than
  the engine allows parameters, each id with a UTF-8 encoding), the users returned, each
  once, are exactly those who are members of every group in the list; for such a
  one-element list they are exactly the members of that group.
\<close>

theorem intersection_members:
  "analyze_intersection e st qq [] = Inr []
   \<and> (sql_engine e \<and> st qq = Some d \<and> group_ids \<noteq> [] \<and> distinct group_ids
        \<and> bindable e group_ids \<longrightarrow>
        (\<exists>r. analyze_intersection e st qq group_ids = Inr r \<and> distinct (map fst r)
             \<and> set (map fst r) = {u. \<forall>g\<in>set group_ids. is_member d u g}))
   \<and> (sql_engine e \<and> st qq = Some d \<and> bindable e [g] \<longrightarrow>
        (\<exists>r. analyze_intersection e st qq [g] = Inr r
             \<and> set (map fst r) = {u. is_member d u g}))"
proof (intro conjI impI)
  show "analyze_intersection e st qq [] = Inr []"
    by (simp add: analyze_intersection_def)
next
  assume "sql_engine e \<and> st qq = Some d \<and> group_ids \<noteq> [] \<and> distinct group_ids
        \<and> bindable e group_ids"
  then show "\<exists>r. analyze_intersection e st qq group_ids = Inr r \<and> distinct (map fst r)
             \<and> set (map fst r) = {u. \<forall>g\<in>set group_ids. is_member d u g}"
    using intersection_distinct_list [where st = st and qq = qq and d = d and gs = group_ids
        and e = e]
    by simp
next
  assume "sql_engine e \<and> st qq = Some d \<and> bindable e [g]"
  then show "\<exists>r. analyze_intersection e st qq [g] = Inr r
             \<and> set (map fst r) = {u. is_member d u g}"
    using intersection_distinct_list [where st = st and qq = qq and d = d and gs = "[g]"
        and e = e]
    by auto
qed

lemma ex_bindable:
  "bindable ex_engine [S ''G1'', S ''G2'']" "bindable ex_engine [S ''G1'']"
  "bindable ex_engine [S ''G1'', S ''G2'', S ''G1'']"
  by (simp_all add: bindable_def ex_engine_def S_def encodable_def scalar_value_def)

theorem intersection_members_witness:
  "sql_engine ex_engine
   \<and> [S ''1000'' \<mapsto> ex_scenario] (S ''1000'') = Some ex_scenario
   \<and> [S ''G1'', S ''G2''] \<noteq> [] \<and> distinct [S ''G1'', S ''G2'']
   \<and> bindable ex_engine [S ''G1'', S ''G2'']
   \<and> analyze_intersection ex_engine [S ''1000'' \<mapsto> ex_scenario] (S ''1000'') [S ''G1'', S ''G2''] =
       Inr [(S ''B'', SText (S ''b'')), (S ''C'', SText (S ''c''))]
   \<and> {S ''B'', S ''C''} = {u. \<forall>g\<in>set [S ''G1'', S ''G2'']. is_member ex_scenario u g}
   \<and> bindable ex_engine [S ''G1'']
   \<and> analyze_intersection ex_engine [S ''1000'' \<mapsto> ex_scenario] (S ''1000'') [S ''G1''] =
       Inr [(S ''A'', SText (S ''a'')), (S ''B'', SText (S ''b'')), (S ''C'', SText (S ''c''))]
   \<and> {S ''A'', S ''B'', S ''C''} = {u. is_member ex_scenario u (S ''G1'')}"
proof -
  let ?st = "[S ''1000'' \<mapsto> ex_scenario]"
  have s: "?st (S ''1000'') = Some ex_scenario"
    by simp
  have d: "[S ''G1'', S ''G2''] \<noteq> [] \<and> distinct [S ''G1'', S ''G2'']"
    by (simp add: S_def)
  note inst = intersection_members [of ex_engine ?st "S ''1000''" ex_scenario
      "[S ''G1'', S ''G2'']" "S ''G1''"]
  from inst ex_engine_sql s d ex_bindable(1) obtain r where
    "analyze_intersection ex_engine ?st (S ''1000'') [S ''G1'', S ''G2''] = Inr r" and
    "set (map fst r) = {u. \<forall>g\<in>set [S ''G1'', S ''G2'']. is_member ex_scenario u g}"
    by blast
  then have two: "{S ''B'', S ''C''} = {u. \<forall>g\<in>set [S ''G1'', S ''G2'']. is_member ex_scenario u g}"
    unfolding ex_scenario_intersection(1) by auto
  from inst ex_engine_sql s ex_bindable(2) obtain r' where
    "analyze_intersection ex_engine ?st (S ''1000'') [S ''G1''] = Inr r'" and
    "set (map fst r') = {u. is_member ex_scenario u (S ''G1'')}"
    by blast
  then have one: "{S ''A'', S ''B'', S ''C''} = {u. is_member ex_scenario u (S ''G1'')}"
    unfolding ex_scenario_intersection(2) by auto
  from ex_engine_sql s d ex_bindable(1,2) two one show ?thesis
    by (simp only: ex_scenario_intersection simp_thms)
qed

text \<open>
  C10. The claim says that the result is empty whenever the list names a group more than
  once. The statement has one parameter for each listed id and one more: given G1 listed
  32766 times it has 32767, the engine allows 32766, and the code raises
  \<open>OperationalError\<close> and returns no result.
\<close>

theorem intersection_duplicates_counterexample:
  "\<not> distinct (S ''G1'' # replicate 32765 (S ''G1''))
   \<and> analyze_intersection ex_engine [S ''1000'' \<mapsto> ex_scenario] (S ''1000'')
        (S ''G1'' # replicate 32765 (S ''G1'')) = Inl (DatabaseError OperationalError)"
proof -
  have "\<not> distinct (S ''G1'' # replicate 32765 (S ''G1''))"
    by simp
  moreover have "analyze_intersection ex_engine [S ''1000'' \<mapsto> ex_scenario] (S ''1000'')
        (S ''G1'' # replicate 32765 (S ''G1'')) = Inl (DatabaseError OperationalError)"
    by (rule intersection_too_long [where d = ex_scenario]) (simp_all add: ex_engine_def)
  ultimately show ?thesis by simp
qed

text \<open>
  C10, amended. When the list passed to the intersection names a group more than once, the
  engine accepts it (fewer ids than the engine allows parameters, each id with a UTF-8
  encoding) and the account has a database, the result is empty, whoever is a member of the
  groups listed.
\<close>

theorem intersection_duplicates:
  assumes "\<not> distinct group_ids" and "bindable e group_ids" and "st qq = Some d"
  shows "analyze_intersection e st qq group_ids = Inr []"
  using assms(3,1,2) by (rule intersection_duplicate_list)

theorem intersection_duplicates_witness:
  "\<not> distinct [S ''G1'', S ''G2'', S ''G1'']
   \<and> bindable ex_engine [S ''G1'', S ''G2'', S ''G1'']
   \<and> [S ''1000'' \<mapsto> ex_scenario] (S ''1000'') = Some ex_scenario
   \<and> is_member ex_scenario (S ''B'') (S ''G1'') \<and> is_member ex_scenario (S ''B'') (S ''G2'')
   \<and> analyze_intersection ex_engine [S ''1000'' \<mapsto> ex_scenario] (S ''1000'')
        [S ''G1'', S ''G2'', S ''G1''] = Inr []"
proof -
  have n: "\<not> distinct [S ''G1'', S ''G2'', S ''G1'']"
    by simp
  have s: "[S ''1000'' \<mapsto> ex_scenario] (S ''1000'') = Some ex_scenario"
    by simp
  have "is_member ex_scenario (S ''B'') (S ''G1'')" and "is_member ex_scenario (S ''B'') (S ''G2'')"
    by (simp_all add: is_member_def ex_scenario_def S_def)
  with n s ex_bindable(3)
    intersection_duplicates [where st = "[S ''1000'' \<mapsto> ex_scenario]"
      and qq = "S ''1000''" and e = ex_engine, OF n ex_bindable(3) s]
  show ?thesis
    by simp
qed

text \<open>
  C6. The claim says that \<open>get_frequent_users\<close> returns the users for every \<open>min_groups\<close>.
  \<open>min_groups\<close> is bound as a parameter of the statement, and an integer outside 64 bits
  cannot be bound: at 2 to the power 63 the code raises \<open>OverflowError\<close>.
\<close>

theorem frequent_users_counterexample:
  "get_frequent_users ex_engine [S ''1000'' \<mapsto> ex_scenario] (S ''1000'') 9223372036854775808 =
     Inl OverflowError"
  by (simp add: get_frequent_users_def get_session_def ex_engine_def)

text \<open>
  C6, amended. For an account that has a database whose member rows have distinct primary
  keys, and a \<open>min_groups\<close> within the range of a signed 64-bit integer, the users returned
  by \<open>get_frequent_users\<close>, each once, are exactly those with a member row whose number of
  distinct groups is at least \<open>min_groups\<close>; the count returned with a user is that number,
  and the counts never increase along the result.
\<close>

theorem frequent_users_counts:
  assumes "sql_engine e" and "st qq = Some d" and "distinct (map member_key (members d))"
    and "in_int64 min_groups"
  shows "\<exists>r. get_frequent_users e st qq min_groups = Inr r
           \<and> set (map fst r) =
               {u \<in> user_id ` set (members d). min_groups \<le> int (distinct_group_count d u)}
           \<and> (\<forall>(u, n, c)\<in>set r. c = distinct_group_count d u)
           \<and> distinct (map fst r)
           \<and> sorted_wrt (\<ge>) (map (\<lambda>(u, n, c). c) r)"
proof -
  from frequent_users_result [where st = st and qq = qq and e = e
      and min_groups = min_groups, OF assms(1,2,4)]
  obtain r where
    r: "get_frequent_users e st qq min_groups = Inr r" and
    d: "distinct (map fst r)" and
    s: "sorted_wrt (\<ge>) (map (\<lambda>(u, n, c). c) r)" and
    m: "\<And>u n c. (u, n, c) \<in> set r \<longleftrightarrow>
          u \<in> user_id ` set (members d)
          \<and> n = bare_column e (filter (\<lambda>m. user_id m = u) (members d))
          \<and> c = distinct_group_count d u
          \<and> min_groups \<le> int c"
    unfolding count_rows_is_distinct_count [OF assms(3)] by blast
  have "set (map fst r) =
      {u \<in> user_id ` set (members d). min_groups \<le> int (distinct_group_count d u)}"
  proof (intro set_eqI iffI)
    fix u assume "u \<in> set (map fst r)"
    then obtain n c where "(u, n, c) \<in> set r" by auto
    with m show "u \<in> {u \<in> user_id ` set (members d). min_groups \<le> int (distinct_group_count d u)}"
      by simp
  next
    fix u assume "u \<in> {u \<in> user_id ` set (members d). min_groups \<le> int (distinct_group_count d u)}"
    with m have "(u, bare_column e (filter (\<lambda>m. user_id m = u) (members d)),
        distinct_group_count d u) \<in> set r"
      by simp
    then show "u \<in> set (map fst r)" by force
  qed
  moreover have "\<forall>(u, n, c)\<in>set r. c = distinct_group_count d u"
    using m by auto
  ultimately show ?thesis using r d s by blast
qed

theorem frequent_users_counts_witness:
  "sql_engine ex_engine
   \<and> [S ''1000'' \<mapsto> ex_scenario] (S ''1000'') = Some ex_scenario
   \<and> distinct (map member_key (members ex_scenario))
   \<and> in_int64 2
   \<and> get_frequent_users ex_engine [S ''1000'' \<mapsto> ex_scenario] (S ''1000'') 2 =
       Inr [(S ''C'', SText (S ''c''), 2), (S ''B'', SText (S ''b''), 2)]
   \<and> {S ''C'', S ''B''} =
       {u \<in> user_id ` set (members ex_scenario). 2 \<le> int (distinct_group_count ex_scenario u)}
   \<and> distinct_group_count ex_scenario (S ''B'') = 2"
proof -
  let ?st = "[S ''1000'' \<mapsto> ex_scenario]"
  let ?r = "[(S ''C'', SText (S ''c''), 2 :: nat), (S ''B'', SText (S ''b''), 2)]"
  have s: "?st (S ''1000'') = Some ex_scenario"
    by simp
  have k: "distinct (map member_key (members ex_scenario))"
    by (simp add: ex_scenario_def member_key_def S_def)
  have i: "in_int64 2"
    by (simp add: in_int64_def)
  from frequent_users_counts [where st = ?st and qq = "S ''1000''"
      and e = ex_engine and min_groups = 2, OF ex_engine_sql s k i]
  obtain r where
    "get_frequent_users ex_engine ?st (S ''1000'') 2 = Inr r" and
    u: "set (map fst r) =
      {u \<in> user_id ` set (members ex_scenario). 2 \<le> int (distinct_group_count ex_scenario u)}" and
    c: "\<forall>(u, n, c)\<in>set r. c = distinct_group_count ex_scenario u"
    by blast
  then have r: "r = ?r"
    by (simp add: ex_scenario_frequent)
  from u have users: "{S ''C'', S ''B''} =
      {u \<in> user_id ` set (members ex_scenario). 2 \<le> int (distinct_group_count ex_scenario u)}"
    unfolding r by simp
  from c have "distinct_group_count ex_scenario (S ''B'') = 2"
    unfolding r by simp
  with ex_engine_sql s k i users show ?thesis
    by (simp only: ex_scenario_frequent simp_thms)
qed

section \<open>Properties of decryption\<close>





lemma find_binary_None:
  "snd (find_binary run cs) = Inr None \<longleftrightarrow>
     list_all (\<lambda>c. case run c of NotFound \<Rightarrow> True | CalledProcessError e t \<Rightarrow> True | _ \<Rightarrow> False) cs"
  by (induction cs) (auto split: run_result.splits prod.splits)










lemma ex_bare_env_decrypt:
  "decrypt_db ex_bare_env key =
     ([Probed (S ''sqlcipher''), Probed (S ''sqlcipher-x64''), Probed (S ''sqlcipher-x86'')],
      Inl (Exception error_detail))"
  by (simp add: decrypt_db_def library_strategy_def tool_strategy_def find_sqlcipher_binary_def
      candidates_def ex_bare_env_def S_def)




section \<open>Primary keys and nicknames\<close>

lemma merge_Group_keys:
  "set (map g_group_id (merge_Group g tbl)) = insert (g_group_id g) (set (map g_group_id tbl))"
  by (induction tbl) auto

lemma merge_Group_distinct:
  "distinct (map g_group_id tbl) \<Longrightarrow> distinct (map g_group_id (merge_Group g tbl))"
proof (induction tbl)
  case Nil
  then show ?case by simp
next
  case (Cons r rs)
  then show ?case
    using merge_Group_keys [of g rs] by auto
qed

lemma merge_Member_keys:
  "set (map member_key (merge_Member m tbl)) = insert (member_key m) (set (map member_key tbl))"
  by (induction tbl) auto

lemma merge_Member_distinct:
  "distinct (map member_key tbl) \<Longrightarrow> distinct (map member_key (merge_Member m tbl))"
proof (induction tbl)
  case Nil
  then show ?case by simp
next
  case (Cons r rs)
  then show ?case
    using merge_Member_keys [of m rs] by auto
qed

lemma bulk_save_objects_distinct:
  "bulk_save_objects ms tbl = Inr tbl' \<Longrightarrow> distinct (map member_key tbl) \<Longrightarrow>
   distinct (map member_key tbl')"
proof (induction ms arbitrary: tbl)
  case Nil
  then show ?case by simp
next
  case (Cons m ms)
  from Cons.prems(1) have k: "member_key m \<notin> set (map member_key tbl)"
    and r: "bulk_save_objects ms (tbl @ [stored_Member m]) = Inr tbl'"
    by (simp_all split: if_splits)
  from k Cons.prems(2) have "distinct (map member_key (tbl @ [stored_Member m]))"
    by simp
  with Cons.IH [OF r] show ?case .
qed

lemma load_groups_distinct:
  "distinct (map g_group_id tbl) \<Longrightarrow> distinct (map g_group_id (load_groups rows tbl))"
  by (induction rows arbitrary: tbl) (simp_all add: merge_Group_distinct)

lemma load_members_distinct:
  "load_members qq rows batch tbl = Inr (batch', tbl') \<Longrightarrow> distinct (map member_key tbl) \<Longrightarrow>
   distinct (map member_key tbl')"
proof (induction rows arbitrary: batch tbl)
  case Nil
  then show ?case by simp
next
  case (Cons row rows)
  show ?case
  proof (cases "kept qq row")
    case False
    with Cons show ?thesis by (simp add: load_members_skip)
  next
    case True
    let ?b = "batch @ [member_of_row row]"
    show ?thesis
    proof (cases "length ?b \<ge> BATCH_SIZE")
      case big: True
      with True Cons.prems(1) obtain t where
        t: "bulk_save_objects ?b tbl = Inr t" and
        r: "load_members qq rows [] t = Inr (batch', tbl')"
        by (auto simp add: load_members_kept split: sum.splits)
      from bulk_save_objects_distinct [OF t Cons.prems(2)] Cons.IH [OF r]
      show ?thesis by simp
    next
      case small: False
      with True Cons.prems(1) have "load_members qq rows ?b tbl = Inr (batch', tbl')"
        by (simp add: load_members_kept)
      from Cons.IH [OF this Cons.prems(2)] show ?thesis .
    qed
  qed
qed

lemma etl_transaction_wf:
  assumes "etl_transaction src qq d0 = Inr d"
  shows "wf_db d"
proof -
  from assms obtain grows mrows batch tbl where
    g: "group_list src = Some grows" and
    m: "group_member3 src = Some mrows" and
    l: "load_members qq mrows [] [] = Inr (batch, tbl)"
    by (auto simp add: etl_transaction_def Let_def split: option.splits sum.splits)
  from load_members_distinct [OF l] have t: "distinct (map member_key tbl)"
    by simp
  from assms g m l have "groups d = load_groups grows []"
    by (auto simp add: etl_transaction_def Let_def split: sum.splits if_splits)
  then have gd: "distinct (map g_group_id (groups d))"
    by (simp add: load_groups_distinct)
  have "distinct (map member_key (members d))"
  proof (cases "batch = []")
    case True
    with assms g m l t show ?thesis
      by (auto simp add: etl_transaction_def Let_def)
  next
    case False
    with assms g m l obtain t' where "bulk_save_objects batch tbl = Inr t'" and "members d = t'"
      by (auto simp add: etl_transaction_def Let_def split: sum.splits)
    with bulk_save_objects_distinct [OF _ t] show ?thesis by simp
  qed
  with gd show ?thesis by (simp add: wf_db_def)
qed

lemma json_members_distinct:
  "json_members qq gid ms tbl = Some tbl' \<Longrightarrow> distinct (map member_key tbl) \<Longrightarrow>
   distinct (map member_key tbl')"
proof (induction ms arbitrary: tbl)
  case Nil
  then show ?case by simp
next
  case (Cons item ms)
  obtain uid u_info where item: "item = (uid, u_info)" by (cases item)
  show ?case
  proof (cases "uid = qq")
    case True
    with Cons item show ?thesis by simp
  next
    case False
    with Cons.prems(1) item obtain m where
      "json_members qq gid ms (merge_Member m tbl) = Some tbl'"
      by (auto split: json.splits option.splits if_splits)
    from Cons.IH [OF this merge_Member_distinct [OF Cons.prems(2)]] show ?thesis .
  qed
qed

lemma json_groups_wf:
  "json_groups qq items d = Some d' \<Longrightarrow> wf_db d \<Longrightarrow> wf_db d'"
proof (induction items arbitrary: d)
  case Nil
  then show ?case by simp
next
  case (Cons item items)
  obtain gid g_info where item: "item = (gid, g_info)" by (cases item)
  from Cons.prems(1) item obtain g_name ms tbl where
    tbl: "json_members qq gid ms (members d) = Some tbl" and
    r: "json_groups qq items
          \<lparr>groups = merge_Group \<lparr>g_group_id = gid, group_name = g_name\<rparr> (groups d),
           members = tbl\<rparr> = Some d'"
    by (auto split: json.splits option.splits if_splits)
  from Cons.prems(2) json_members_distinct [OF tbl]
  have "wf_db \<lparr>groups = merge_Group \<lparr>g_group_id = gid, group_name = g_name\<rparr> (groups d),
           members = tbl\<rparr>"
    by (simp add: wf_db_def merge_Group_distinct)
  with Cons.IH [OF r] show ?case .
qed

lemma json_transaction_wf:
  assumes "json_transaction data qq d0 = Some d"
  shows "wf_db d"
proof -
  from assms obtain items where
    "json_groups qq items (d0\<lparr>members := [], groups := []\<rparr>) = Some d"
    by (auto simp add: json_transaction_def Let_def split: json.splits)
  from json_groups_wf [OF this] show ?thesis by (simp add: wf_db_def)
qed

text \<open>
  An import that completes leaves a database whose rows have distinct primary keys: the
  hypothesis of C6 holds of every database the program writes.
\<close>

lemma import_wf:
  "clean_data_to_analysis_db src qq st = (Inr (), st') \<Longrightarrow> \<exists>d. st' qq = Some d \<and> wf_db d"
  "process_json upload qq st = (Inr (), st') \<Longrightarrow> \<exists>d. st' qq = Some d \<and> wf_db d"
proof -
  assume "clean_data_to_analysis_db src qq st = (Inr (), st')"
  then obtain d where "etl_transaction src qq (init_user_db st qq) = Inr d" and "st' qq = Some d"
    by (auto simp add: clean_data_to_analysis_db_def Let_def split: sum.splits)
  with etl_transaction_wf [of src qq "init_user_db st qq" d]
  show "\<exists>d. st' qq = Some d \<and> wf_db d" by simp
next
  assume "process_json upload qq st = (Inr (), st')"
  then obtain data d where
    "json_transaction data qq (init_user_db st qq) = Some d" and "st' qq = Some d"
    by (auto simp add: process_json_def Let_def split: option.splits)
  with json_transaction_wf [of data qq "init_user_db st qq" d]
  show "\<exists>d. st' qq = Some d \<and> wf_db d" by simp
qed

text \<open>
  The raw-table import does fall back: every member row it writes comes from a kept source
  row; its user name is what column 1 is stored as, and its nickname what column 0 is
  stored as if that column is non-empty, the user name otherwise.
\<close>

lemma raw_nickname_fallback:
  assumes "clean_data_to_analysis_db src qq st = (Inr (), st')" and "st' qq = Some d"
    and "m \<in> set (members d)"
  shows "\<exists>mrows row. group_member3 src = Some mrows \<and> row \<in> set mrows \<and> kept qq row
           \<and> m = stored_Member (member_of_row row) \<and> user_name m = to_text (row ! 1)
           \<and> user_group_name m = (if truthy (row ! 0) then to_text (row ! 0) else user_name m)"
proof -
  from assms(1,2) have "etl_transaction src qq (init_user_db st qq) = Inr d"
    by (auto simp add: clean_data_to_analysis_db_def Let_def split: sum.splits)
  from etl_transaction_members [OF this] assms(3)
  obtain mrows row where "group_member3 src = Some mrows" and "row \<in> set mrows"
    and "kept qq row" and "m = stored_Member (member_of_row row)"
    by auto
  then show ?thesis
    by (auto simp add: member_of_row_def)
qed

text \<open>
  C8. In the structured import a member whose payload has no \<open>user_group_name\<close> is written
  with the empty string as nickname, not with its user name: the upload of the
  specification's own scenario leaves the row of U1 with user name Bob and nickname \<open>''\<close>.
\<close>

theorem json_nickname_default:
  "process_json (Some ex_json) (S ''1000'') Map.empty = (Inr (), [S ''1000'' \<mapsto> ex_json_db])
   \<and> map user_id (members ex_json_db) = [S ''U1'']
   \<and> map user_name (members ex_json_db) = [SText (S ''Bob'')]
   \<and> map user_group_name (members ex_json_db) = [SText []]"
  by (simp add: process_json_success [OF ex_json_transaction] ex_json_db_def)

end
